theory Spec2Isabelle
  imports Main
begin

section \<open>Python values and exceptions\<close>

text \<open>
  The program is \<^verbatim>\<open>tools/binary_size/map2size.py\<close>. Python integers are unbounded and
  are modelled by \<^typ>\<open>int\<close>; Python byte strings are modelled by \<^typ>\<open>string\<close>. An
  uncaught exception ends the run; it is the \<open>Inl\<close> side of a sum. The argument of an
  exception is the fixed part of its message.
\<close>

datatype error =
    AssertionError string
  | AttributeError string
  | IndexError string
  | ValueError string
  | Exception string

text \<open>\<^verbatim>\<open>s.startswith(p)\<close> and \<^verbatim>\<open>s.endswith(p)\<close>.\<close>

definition startswith :: "string \<Rightarrow> string \<Rightarrow> bool" where
  "startswith s p = (take (length p) s = p)"

definition endswith :: "string \<Rightarrow> string \<Rightarrow> bool" where
  "endswith s p = (length p \<le> length s \<and> drop (length s - length p) s = p)"

text \<open>\<^verbatim>\<open>s.find(sub)\<close>: the lowest index at which \<open>sub\<close> occurs in \<open>s\<close>, or \<open>-1\<close>.\<close>

fun find_sub :: "string \<Rightarrow> string \<Rightarrow> int" where
  "find_sub [] sub = (if sub = [] then 0 else -1)"
| "find_sub (c # cs) sub =
     (if startswith (c # cs) sub then 0
      else (let i = find_sub cs sub in if i = -1 then -1 else i + 1))"

text \<open>
  \<^verbatim>\<open>s.find(sub, 0, end)\<close> for \<open>end \<ge> 0\<close>: the search is confined to the slice
  \<^verbatim>\<open>s[0:end]\<close>, so an occurrence counts only when it lies entirely inside the slice.
\<close>

definition find_upto :: "string \<Rightarrow> string \<Rightarrow> nat \<Rightarrow> int" where
  "find_upto s sub e = find_sub (take e s) sub"

text \<open>\<^verbatim>\<open>sub in s\<close> on strings: \<open>sub\<close> occurs somewhere in \<open>s\<close>.\<close>

definition str_in :: "string \<Rightarrow> string \<Rightarrow> bool" where
  "str_in sub s = (find_sub s sub \<noteq> -1)"

section \<open>The data model\<close>

text \<open>
  A \<^verbatim>\<open>models.Symbol\<close>, with the attributes that \<^verbatim>\<open>map2size.py\<close> reads and writes.
  The attributes \<^verbatim>\<open>size\<close> and \<^verbatim>\<open>section\<close> are the fields \<open>size_sym\<close> and
  \<open>section_sym\<close>. A \<^verbatim>\<open>SymbolGroup\<close> is the list of its symbols, in order; a symbol
  object is identified by its position in the group.
\<close>

record symbol =
  name :: string
  full_name :: string
  address :: int
  size_sym :: int
  padding :: int
  section_sym :: string
  section_name :: string
  object_path :: string
  source_path :: string
  is_anonymous :: bool

text \<open>
  Modelled from the spec: the properties \<^verbatim>\<open>size_without_padding\<close> and
  \<^verbatim>\<open>end_address\<close> of \<^verbatim>\<open>models.Symbol\<close>, whose file is not among the sources.
  The spec has \<^verbatim>\<open>size\<close> as the span inclusive of absorbed padding,
  \<^verbatim>\<open>size_without_padding\<close> as the size before padding absorption, and
  \<^verbatim>\<open>end_address = address + size\<close>.
\<close>

definition size_without_padding :: "symbol \<Rightarrow> int" where
  "size_without_padding s = size_sym s - padding s"

definition end_address :: "symbol \<Rightarrow> int" where
  "end_address s = address s + size_sym s"

section \<open>The Interval Reconciler\<close>

text \<open>
  \<^verbatim>\<open>to_remove\<close> is created as a list (\<^verbatim>\<open>to_remove = []\<close>), and a Python list has
  no method \<^verbatim>\<open>add\<close>: the call \<^verbatim>\<open>to_remove.add(symbol)\<close> raises AttributeError.
\<close>

definition list_add :: "nat list \<Rightarrow> nat \<Rightarrow> error + nat list" where
  "list_add to_remove x = Inl (AttributeError ''list object has no attribute add'')"

text \<open>
  The body of the loop of \<^verbatim>\<open>_RemoveDuplicatesAndCalculatePadding\<close>, for the symbol at
  index \<open>i + 1\<close> and its predecessor \<open>prev_symbol\<close> (the object at index \<open>i\<close>, as
  earlier iterations left it). The state is \<^verbatim>\<open>seen_sections\<close> and \<^verbatim>\<open>to_remove\<close>;
  the result holds the symbol as the iteration leaves it.
\<close>

definition reconcile_pair ::
  "string list \<Rightarrow> nat list \<Rightarrow> nat \<Rightarrow> symbol \<Rightarrow> symbol
     \<Rightarrow> error + (string list \<times> nat list \<times> symbol)" where
  "reconcile_pair seen_sections to_remove i prev_symbol symbol =
    (if section_name prev_symbol \<noteq> section_name symbol then
       (if section_name symbol \<in> set seen_sections
        then Inl (AssertionError ''Input symbols must be sorted by section, then address.'')
        else Inr (seen_sections @ [section_name symbol], to_remove, symbol))
     else if address symbol \<le> 0 \<or> address prev_symbol \<le> 0 then
       Inr (seen_sections, to_remove, symbol)
     else
       (let prev_is_padding_only = (size_without_padding prev_symbol = 0) in
        if address symbol = address prev_symbol \<and> \<not> prev_is_padding_only then
          (let symbol' = symbol\<lparr>size_sym := max (size_sym prev_symbol) (size_sym symbol)\<rparr> in
           case list_add to_remove (i + 1) of
             Inl e \<Rightarrow> Inl e
           | Inr to_remove' \<Rightarrow> Inr (seen_sections, to_remove', symbol'))
        else
          (let pad = address symbol - end_address prev_symbol in
           if \<not> startswith (name symbol) ''*'' \<and>
              (str_in (section_sym symbol) ''rd'' \<and> pad \<ge> 256 \<or>
               str_in (section_sym symbol) ''t'' \<and> pad \<ge> 64)
           then Inr (seen_sections, to_remove, symbol)
           else
             (let symbol' = symbol\<lparr>padding := pad, size_sym := size_sym symbol + pad\<rparr> in
              if size_sym symbol' \<ge> 0
              then Inr (seen_sections, to_remove, symbol')
              else Inl (AssertionError
                     ''Symbol has negative size (likely not sorted propertly): '')))))"

text \<open>
  The loop over \<^verbatim>\<open>enumerate(symbol_group[1:])\<close>: \<open>rest\<close> are the symbols still to
  visit, \<open>prev_symbol\<close> is the one just before them. The result lists the visited symbols
  as the loop leaves them.
\<close>

fun reconcile_scan ::
  "string list \<Rightarrow> nat list \<Rightarrow> nat \<Rightarrow> symbol \<Rightarrow> symbol list
     \<Rightarrow> error + (string list \<times> nat list \<times> symbol list)" where
  "reconcile_scan seen_sections to_remove i prev_symbol [] =
     Inr (seen_sections, to_remove, [])"
| "reconcile_scan seen_sections to_remove i prev_symbol (symbol # rest) =
     (case reconcile_pair seen_sections to_remove i prev_symbol symbol of
        Inl e \<Rightarrow> Inl e
      | Inr (seen_sections', to_remove', symbol') \<Rightarrow>
          (case reconcile_scan seen_sections' to_remove' (i + 1) symbol' rest of
             Inl e \<Rightarrow> Inl e
           | Inr (seen_sections'', to_remove'', out) \<Rightarrow>
               Inr (seen_sections'', to_remove'', symbol' # out)))"

text \<open>
  Modelled from the spec: the difference of two symbol groups
  (\<^verbatim>\<open>symbol_group -= models.SymbolGroup(to_remove)\<close>), of \<^verbatim>\<open>models.py\<close>, which is
  not among the sources. The spec has it as the removal of the marked symbols from the
  group; the marked objects are given by their positions.
\<close>

definition group_minus :: "symbol list \<Rightarrow> nat list \<Rightarrow> symbol list" where
  "group_minus symbol_group to_remove =
     map snd (filter (\<lambda>(j, s). j \<notin> set to_remove) (zip [0..<length symbol_group] symbol_group))"

definition RemoveDuplicatesAndCalculatePadding :: "symbol list \<Rightarrow> error + symbol list" where
  "RemoveDuplicatesAndCalculatePadding symbol_group =
     (case symbol_group of
        [] \<Rightarrow> Inr []
      | first # rest \<Rightarrow>
          (case reconcile_scan [] [] 0 first rest of
             Inl e \<Rightarrow> Inl e
           | Inr (seen_sections, to_remove, out) \<Rightarrow>
               if to_remove \<noteq> [] then Inr (group_minus (first # out) to_remove)
               else Inr (first # out)))"

section \<open>The Unmangler\<close>

text \<open>\<^verbatim>\<open>'\n'.join(lines)\<close>.\<close>

fun join_nl :: "string list \<Rightarrow> string" where
  "join_nl [] = []"
| "join_nl [l] = l"
| "join_nl (l # m # ls) = l @ [CHR 0x0A] @ join_nl (m # ls)"

text \<open>
  \<^verbatim>\<open>s.splitlines()\<close> of a Python 2 byte string: a line ends at \<^verbatim>\<open>\n\<close>, at
  \<^verbatim>\<open>\r\n\<close> or at \<^verbatim>\<open>\r\<close>; the line ends are dropped, and a last line that is
  empty is not listed. \<open>acc\<close> is the line read so far.
\<close>

fun splitlines_acc :: "string \<Rightarrow> string \<Rightarrow> string list" where
  "splitlines_acc acc [] = (if acc = [] then [] else [acc])"
| "splitlines_acc acc [c] =
     (if c = CHR 0x0A \<or> c = CHR 0x0D then [acc] else [acc @ [c]])"
| "splitlines_acc acc (c # d # cs) =
     (if c = CHR 0x0A then acc # splitlines_acc [] (d # cs)
      else if c = CHR 0x0D then
        (if d = CHR 0x0A then acc # splitlines_acc [] cs
         else acc # splitlines_acc [] (d # cs))
      else splitlines_acc (acc @ [c]) (d # cs))"

definition splitlines :: "string \<Rightarrow> string list" where
  "splitlines s = splitlines_acc [] s"

text \<open>
  The loop \<^verbatim>\<open>for i, line in enumerate(stdout.splitlines()): to_process[i].name = line\<close>.
  \<open>to_process\<close> holds the positions in the group of the symbols to rename; indexing it
  past its end raises IndexError.
\<close>

fun assign_lines :: "nat list \<Rightarrow> nat \<Rightarrow> string list \<Rightarrow> symbol list \<Rightarrow> error + symbol list" where
  "assign_lines to_process i [] symbol_group = Inr symbol_group"
| "assign_lines to_process i (line # lines) symbol_group =
     (if i < length to_process then
        assign_lines to_process (i + 1) lines
          (symbol_group[to_process ! i := (symbol_group ! (to_process ! i))\<lparr>name := line\<rparr>])
      else Inl (IndexError ''list index out of range''))"

text \<open>
  \<^verbatim>\<open>_UnmangleRemainingSymbols\<close>. The external demangler is the function \<open>cppfilt\<close>
  from the text written to its standard input to its exit code and its standard output.
  The second component of the result counts the processes started
  (\<^verbatim>\<open>subprocess.Popen\<close>).
\<close>

definition UnmangleRemainingSymbols ::
  "(string \<Rightarrow> int \<times> string) \<Rightarrow> symbol list \<Rightarrow> (error + symbol list) \<times> nat" where
  "UnmangleRemainingSymbols cppfilt symbol_group =
     (let to_process =
            filter (\<lambda>j. startswith (name (symbol_group ! j)) ''_Z'') [0..<length symbol_group]
      in if to_process = [] then (Inr symbol_group, 0)
         else
           (let (returncode, stdout) =
                  cppfilt (join_nl (map (\<lambda>j. name (symbol_group ! j)) to_process))
            in if returncode \<noteq> 0 then (Inl (AssertionError ''proc.returncode == 0''), 1)
               else (assign_lines to_process 0 (splitlines stdout) symbol_group, 1)))"

section \<open>The Name Normalizer\<close>

text \<open>\<^verbatim>\<open>s.replace(old, '')\<close>: every occurrence of \<open>old\<close>, read from the left, is dropped.\<close>

function str_remove :: "string \<Rightarrow> string \<Rightarrow> string" where
  "str_remove [] old = []"
| "str_remove (c # cs) old =
     (if old \<noteq> [] \<and> startswith (c # cs) old
      then str_remove (drop (length old) (c # cs)) old
      else c # str_remove cs old)"
  by pat_completeness auto
termination
  by (relation "measure (\<lambda>(s, old). length s)") auto

text \<open>
  \<^verbatim>\<open>re.sub(r'\(.*\)', '', s)\<close>. The dot matches every character but the newline, and the
  star is greedy: on each line the match runs from the first opening parenthesis to the
  last closing one, when one follows; what is left of the line has no further match.
\<close>

definition sub_parens_line :: "string \<Rightarrow> string" where
  "sub_parens_line l =
     (let pre = takeWhile (\<lambda>c. c \<noteq> CHR ''('') l;
          rest = dropWhile (\<lambda>c. c \<noteq> CHR ''('') l
      in if CHR '')'' \<in> set rest
         then pre @ rev (takeWhile (\<lambda>c. c \<noteq> CHR '')'') (rev rest))
         else l)"

fun split_nl :: "string \<Rightarrow> string list" where
  "split_nl [] = [[]]"
| "split_nl (c # cs) =
     (if c = CHR 0x0A then [] # split_nl cs
      else (case split_nl cs of [] \<Rightarrow> [[c]] | l # ls \<Rightarrow> (c # l) # ls))"

definition re_sub_parens :: "string \<Rightarrow> string" where
  "re_sub_parens s = join_nl (map sub_parens_line (split_nl s))"

text \<open>
  The two prefix rules of \<^verbatim>\<open>_NormalizeNames\<close> (\<^verbatim>\<open>vtable for FOO\<close>,
  \<^verbatim>\<open>virtual thunk to FOO\<close>), each an \<^verbatim>\<open>if\<close> of its own on \<^verbatim>\<open>symbol.name\<close>.
  The set \<^verbatim>\<open>found_prefixes\<close> is only logged and is left out.
\<close>

definition rewrite_for :: "string \<Rightarrow> string" where
  "rewrite_for n =
     (let idx = find_upto n '' for '' 30
      in if idx \<noteq> -1 then drop (nat (idx + 5)) n @ '' ['' @ take (nat idx) n @ '']'' else n)"

definition rewrite_to :: "string \<Rightarrow> string" where
  "rewrite_to n =
     (let idx = find_upto n '' to '' 30
      in if idx \<noteq> -1 then drop (nat (idx + 4)) n @ '' ['' @ take (nat idx) n @ '']'' else n)"

text \<open>
  The steps of the body of the loop of \<^verbatim>\<open>_NormalizeNames\<close>, in the order of the
  source; each takes the symbol as the step before left it.
  \<^verbatim>\<open>function_signature.Parse\<close> is not among the sources and is the parameter \<open>Parse\<close>: it
  maps a name to the pair \<^verbatim>\<open>(full_name, name)\<close>.
\<close>

text \<open>The two prefix rules.\<close>

definition move_prefixes :: "symbol \<Rightarrow> symbol" where
  "move_prefixes symbol =
     (let s1 = symbol\<lparr>name := rewrite_for (name symbol)\<rparr>
      in s1\<lparr>name := rewrite_to (name s1)\<rparr>)"

text \<open>Strip out return type, and identify where parameter list starts.\<close>

definition parse_signature :: "(string \<Rightarrow> string \<times> string) \<Rightarrow> symbol \<Rightarrow> symbol" where
  "parse_signature Parse symbol =
     (if section_sym symbol = ''t''
      then symbol\<lparr>full_name := fst (Parse (name symbol)), name := snd (Parse (name symbol))\<rparr>
      else symbol)"

text \<open>Remove anonymous namespaces.\<close>

definition remove_anonymous :: "symbol \<Rightarrow> symbol" where
  "remove_anonymous symbol =
     (let non_anonymous = str_remove (name symbol) ''(anonymous namespace)::''
      in if name symbol \<noteq> non_anonymous
         then symbol\<lparr>is_anonymous := True, name := non_anonymous,
                     full_name := str_remove (full_name symbol) ''(anonymous namespace)::''\<rparr>
         else symbol)"

text \<open>A symbol outside the code sections with a parenthesis in its name.\<close>

definition strip_parens :: "symbol \<Rightarrow> symbol" where
  "strip_parens symbol =
     (if section_sym symbol \<noteq> ''t'' \<and> CHR ''('' \<in> set (name symbol)
      then symbol\<lparr>full_name := name symbol, name := re_sub_parens (name symbol)\<rparr>
      else symbol)"

text \<open>Don't bother storing both if they are the same.\<close>

definition clear_full_name :: "symbol \<Rightarrow> symbol" where
  "clear_full_name symbol =
     (if full_name symbol = name symbol then symbol\<lparr>full_name := ''''\<rparr> else symbol)"

text \<open>The body of the loop: a symbol whose name starts with \<^verbatim>\<open>*\<close> is passed over.\<close>

definition normalize_symbol :: "(string \<Rightarrow> string \<times> string) \<Rightarrow> symbol \<Rightarrow> symbol" where
  "normalize_symbol Parse symbol =
     (if startswith (name symbol) ''*'' then symbol
      else clear_full_name (strip_parens (remove_anonymous
             (parse_signature Parse (move_prefixes symbol)))))"

definition NormalizeNames :: "(string \<Rightarrow> string \<times> string) \<Rightarrow> symbol list \<Rightarrow> symbol list" where
  "NormalizeNames Parse symbol_group = map (normalize_symbol Parse) symbol_group"

section \<open>The Path Normalizer and the Source Resolver\<close>

text \<open>\<^verbatim>\<open>os.path.join(a, b)\<close> of \<^verbatim>\<open>posixpath\<close>, for two components.\<close>

definition os_path_join :: "string \<Rightarrow> string \<Rightarrow> string" where
  "os_path_join a b =
     (if startswith b ''/'' then b
      else if a = [] \<or> endswith a ''/'' then a @ b
      else a @ ''/'' @ b)"

text \<open>
  The body of the loop of \<^verbatim>\<open>_NormalizeObjectPaths\<close>, on the path of one symbol.
  \<^verbatim>\<open>path.index('(')\<close> raises ValueError when the path has no opening parenthesis;
  \<^verbatim>\<open>path[start_idx + 1:-1]\<close> is the path without its last character, from
  \<open>start_idx + 1\<close> on.
\<close>

definition normalize_object_path :: "string \<Rightarrow> error + string" where
  "normalize_object_path p =
     (let path = (if startswith p ''obj/'' then drop 4 p
                  else if startswith p ''../../'' then drop 6 p
                  else p)
      in if endswith path '')'' then
           (if CHR ''('' \<in> set path then
              (let start_idx = length (takeWhile (\<lambda>c. c \<noteq> CHR ''('') path)
               in Inr (os_path_join (take start_idx path)
                        (drop (start_idx + 1) (butlast path))))
            else Inl (ValueError ''substring not found''))
         else Inr path)"

fun NormalizeObjectPaths :: "symbol list \<Rightarrow> error + symbol list" where
  "NormalizeObjectPaths [] = Inr []"
| "NormalizeObjectPaths (symbol # rest) =
     (case normalize_object_path (object_path symbol) of
        Inl e \<Rightarrow> Inl e
      | Inr path \<Rightarrow>
          (case NormalizeObjectPaths rest of
             Inl e \<Rightarrow> Inl e
           | Inr out \<Rightarrow> Inr (symbol\<lparr>object_path := path\<rparr> # out)))"

definition NormalizeSourcePath :: "string \<Rightarrow> string" where
  "NormalizeSourcePath path =
     (if startswith path ''gen/'' then drop 4 path
      else if startswith path ''../../'' then drop 6 path
      else path)"

text \<open>
  \<^verbatim>\<open>_ExtractSourcePaths\<close>. The build-dependency lookup
  \<^verbatim>\<open>mapper.FindSourceForPath\<close> (of \<^verbatim>\<open>ninja_parser.py\<close>, not among the sources) is
  the parameter \<open>FindSourceForPath\<close>; it answers \<open>None\<close> or a path, and an empty path is
  as false as \<open>None\<close> in \<^verbatim>\<open>if source_path:\<close>. The result is the pair of
  \<^verbatim>\<open>all_found\<close> and the group.
\<close>

fun ExtractSourcePaths ::
  "(string \<Rightarrow> string option) \<Rightarrow> bool \<Rightarrow> symbol list \<Rightarrow> bool \<times> symbol list" where
  "ExtractSourcePaths FindSourceForPath all_found [] = (all_found, [])"
| "ExtractSourcePaths FindSourceForPath all_found (symbol # rest) =
     (if source_path symbol \<noteq> [] \<or> object_path symbol = [] then
        (let (found, out) = ExtractSourcePaths FindSourceForPath all_found rest
         in (found, symbol # out))
      else if \<not> startswith (object_path symbol) ''..'' then
        (case FindSourceForPath (object_path symbol) of
           Some src \<Rightarrow>
             if src \<noteq> [] then
               (let (found, out) = ExtractSourcePaths FindSourceForPath all_found rest
                in (found, symbol\<lparr>source_path := NormalizeSourcePath src\<rparr> # out))
             else
               (let (found, out) = ExtractSourcePaths FindSourceForPath False rest
                in (found, symbol # out))
         | None \<Rightarrow>
             (let (found, out) = ExtractSourcePaths FindSourceForPath False rest
              in (found, symbol # out)))
      else
        (let (found, out) = ExtractSourcePaths FindSourceForPath all_found rest
         in (found, symbol # out)))"

section \<open>The pipeline\<close>

text \<open>
  The metadata that \<^verbatim>\<open>main\<close> builds for an ELF input, and a
  \<^verbatim>\<open>models.SizeInfo\<close>. A Python dictionary from section names to sizes is a list of
  pairs, read with \<^const>\<open>map_of\<close>.
\<close>

record metadata_rec =
  git_revision :: "string option"
  map_filename :: string
  elf_filename :: string
  elf_mtime :: int
  elf_build_id :: string
  gn_args :: "string list"

record size_info =
  section_sizes :: "(string \<times> int) list"
  symbols :: "symbol list"
  metadata :: "metadata_rec option"

text \<open>
  The collaborators of \<^verbatim>\<open>Analyze\<close> that are not among the sources:
  \<^verbatim>\<open>file_format.LoadSizeInfo\<close>, \<^verbatim>\<open>linker_map_parser.MapFileParser().Parse\<close> (on the
  opened map file), \<^verbatim>\<open>function_signature.Parse\<close>, the demangler process and the
  build-dependency lookup.
\<close>

record collaborators =
  LoadSizeInfo :: "string \<Rightarrow> size_info"
  MapFileParse :: "string \<Rightarrow> (string \<times> int) list \<times> symbol list"
  Parse :: "string \<Rightarrow> string \<times> string"
  cppfilt :: "string \<Rightarrow> int \<times> string"
  FindSourceForPath :: "string \<Rightarrow> string option"

text \<open>
  \<^verbatim>\<open>Analyze(path, lazy_paths)\<close>; the checks of \<^verbatim>\<open>lazy_paths\<close> and the log lines are
  left out. The first branch loads a snapshot, the last one reads a linker map.
\<close>

definition Analyze :: "collaborators \<Rightarrow> string \<Rightarrow> error + size_info" where
  "Analyze ext path =
     (if endswith path ''.size'' then
        (let size_info = LoadSizeInfo ext path in
         case RemoveDuplicatesAndCalculatePadding (symbols size_info) of
           Inl e \<Rightarrow> Inl e
         | Inr padded \<Rightarrow> Inr (size_info\<lparr>symbols := NormalizeNames (Parse ext) padded\<rparr>))
      else if \<not> endswith path ''.map'' \<and> \<not> endswith path ''.map.gz'' then
        Inl (Exception ''Expected input to be a .map or a .size'')
      else
        (let (sizes, syms) = MapFileParse ext path;
             size_info = \<lparr>section_sizes = sizes, symbols = syms, metadata = None\<rparr>
         in case RemoveDuplicatesAndCalculatePadding (symbols size_info) of
              Inl e \<Rightarrow> Inl e
            | Inr padded \<Rightarrow>
                (case fst (UnmangleRemainingSymbols (cppfilt ext) padded) of
                   Inl e \<Rightarrow> Inl e
                 | Inr unmangled \<Rightarrow>
                     (let (all_found, sourced) =
                            ExtractSourcePaths (FindSourceForPath ext) True unmangled
                      in if \<not> all_found then
                           Inl (AssertionError
                             ''One or more source file paths could not be found.'')
                         else
                           (case NormalizeObjectPaths (NormalizeNames (Parse ext) sourced) of
                              Inl e \<Rightarrow> Inl e
                            | Inr normalized \<Rightarrow>
                                Inr (size_info\<lparr>symbols := normalized\<rparr>))))))"

text \<open>
  The end of \<^verbatim>\<open>main\<close>: the loop that compares the section sizes read from the ELF file
  with \<^verbatim>\<open>size_info.section_sizes.get(k)\<close>, and the call of
  \<^verbatim>\<open>file_format.SaveSizeInfo\<close>. The result \<open>Inr\<close> holds the \<^verbatim>\<open>SizeInfo\<close> that is
  written to the output file; with \<open>Inl\<close> the run stops before the file is written.
\<close>

fun check_section_sizes :: "(string \<times> int) list \<Rightarrow> (string \<times> int) list \<Rightarrow> error + unit" where
  "check_section_sizes [] sizes = Inr ()"
| "check_section_sizes ((k, v) # rest) sizes =
     (if Some v = map_of sizes k then check_section_sizes rest sizes
      else Inl (AssertionError ''ELF file and .map file do not match.''))"

definition validate_and_save ::
  "metadata_rec option \<Rightarrow> (string \<times> int) list \<Rightarrow> size_info \<Rightarrow> error + size_info" where
  "validate_and_save md elf_section_sizes size_info =
     (case md of
        None \<Rightarrow> Inr size_info
      | Some m \<Rightarrow>
          (case check_section_sizes elf_section_sizes (section_sizes size_info) of
             Inl e \<Rightarrow> Inl e
           | Inr _ \<Rightarrow> Inr (size_info\<lparr>metadata := Some m\<rparr>)))"

definition main_run ::
  "collaborators \<Rightarrow> string \<Rightarrow> metadata_rec option \<Rightarrow> (string \<times> int) list
     \<Rightarrow> error + size_info" where
  "main_run ext map_file_path md elf_section_sizes =
     (case Analyze ext map_file_path of
        Inl e \<Rightarrow> Inl e
      | Inr size_info \<Rightarrow> validate_and_save md elf_section_sizes size_info)"

section \<open>Example data\<close>

text \<open>
  A symbol as the parser of a linker map hands it over: no padding, no full name, no
  source path, not anonymous.
\<close>

definition raw_symbol :: "string \<Rightarrow> int \<Rightarrow> int \<Rightarrow> string \<Rightarrow> string \<Rightarrow> string \<Rightarrow> symbol" where
  "raw_symbol n a sz letter sec obj =
     \<lparr>name = n, full_name = '''', address = a, size_sym = sz, padding = 0,
      section_sym = letter, section_name = sec, object_path = obj, source_path = '''',
      is_anonymous = False\<rparr>"

text \<open>A group of three symbols in two sections, and the group as the reconciler leaves it.\<close>

definition example_group :: "symbol list" where
  "example_group =
     [raw_symbol ''a'' 100 4 ''t'' ''.text'' ''obj/a.o'',
      raw_symbol ''b'' 110 8 ''t'' ''.text'' ''obj/b.o'',
      raw_symbol ''c'' 4096 16 ''d'' ''.data'' ''obj/c.o'']"

definition example_padded :: "symbol list" where
  "example_padded =
     [raw_symbol ''a'' 100 4 ''t'' ''.text'' ''obj/a.o'',
      (raw_symbol ''b'' 110 8 ''t'' ''.text'' ''obj/b.o'')\<lparr>padding := 6, size_sym := 14\<rparr>,
      raw_symbol ''c'' 4096 16 ''d'' ''.data'' ''obj/c.o'']"

text \<open>
  Collaborators for the example: the map file holds the example group, the name parser
  leaves a name as it is, the demangler echoes its input, and every object file is found
  to come from one source file. The last two definitions are the metadata of the run and
  the \<^verbatim>\<open>SizeInfo\<close> that \<^verbatim>\<open>Analyze\<close> returns for the map file.
\<close>

definition example_collaborators :: collaborators where
  "example_collaborators =
     \<lparr>LoadSizeInfo = (\<lambda>p. \<lparr>section_sizes = [(''.text'', 18), (''.data'', 16)],
                             symbols = example_group, metadata = None\<rparr>),
      MapFileParse = (\<lambda>p. ([(''.text'', 18), (''.data'', 16)], example_group)),
      Parse = (\<lambda>n. (n, n)),
      cppfilt = (\<lambda>inp. (0, inp)),
      FindSourceForPath = (\<lambda>p. Some ''../../src/main.cc'')\<rparr>"

definition example_size_info :: size_info where
  "example_size_info =
     \<lparr>section_sizes = [(''.text'', 18), (''.data'', 16)],
      symbols =
        [(raw_symbol ''a'' 100 4 ''t'' ''.text'' ''a.o'')\<lparr>source_path := ''src/main.cc''\<rparr>,
         (raw_symbol ''b'' 110 8 ''t'' ''.text'' ''b.o'')
           \<lparr>padding := 6, size_sym := 14, source_path := ''src/main.cc''\<rparr>,
         (raw_symbol ''c'' 4096 16 ''d'' ''.data'' ''c.o'')\<lparr>source_path := ''src/main.cc''\<rparr>],
      metadata = None\<rparr>"

definition example_metadata :: metadata_rec where
  "example_metadata =
     \<lparr>git_revision = None, map_filename = ''libfoo.so.map'', elf_filename = ''libfoo.so'',
      elf_mtime = 1490000000, elf_build_id = ''abc123'', gn_args = [''is_debug=false'']\<rparr>"

text \<open>A group with two mangled names, for the unmangler.\<close>

definition example_mangled :: "symbol list" where
  "example_mangled =
     [raw_symbol ''_Z3foov'' 100 4 ''t'' ''.text'' '''',
      raw_symbol ''main'' 104 4 ''t'' ''.text'' '''',
      raw_symbol ''_Z3barv'' 108 4 ''t'' ''.text'' '''']"

text \<open>
  A group for the name normalizer: a name with a prefix, a placeholder, and a data symbol
  with a parameter list in its name; then the group as one pass leaves it, with the name
  parser of the example collaborators.
\<close>

definition example_names :: "symbol list" where
  "example_names =
     [raw_symbol ''vtable for Foo'' 4096 8 ''d'' ''.data'' '''',
      raw_symbol ''* for x'' 4104 8 ''d'' ''.data'' '''',
      raw_symbol ''f(char const*)::word_list'' 4112 8 ''d'' ''.data'' '''']"

definition example_names_normalized :: "symbol list" where
  "example_names_normalized =
     [raw_symbol ''Foo [vtable]'' 4096 8 ''d'' ''.data'' '''',
      raw_symbol ''* for x'' 4104 8 ''d'' ''.data'' '''',
      (raw_symbol ''f::word_list'' 4112 8 ''d'' ''.data'' '''')
         \<lparr>full_name := ''f(char const*)::word_list''\<rparr>]"

section \<open>Notions used in the statements\<close>

text \<open>The source path and the object path of every symbol of a group, in order.\<close>

definition paths_of :: "symbol list \<Rightarrow> (string \<times> string) list" where
  "paths_of g = map (\<lambda>s. (source_path s, object_path s)) g"

text \<open>The string \<open>sub\<close> occurs in \<open>s\<close> at the index \<open>j\<close>.\<close>

definition occurs_at :: "string \<Rightarrow> string \<Rightarrow> nat \<Rightarrow> bool" where
  "occurs_at sub s j = startswith (drop j s) sub"

section \<open>Properties of the Interval Reconciler\<close>

lemmas reconcile_eval =
  reconcile_pair_def list_add_def Let_def str_in_def startswith_def
  size_without_padding_def end_address_def raw_symbol_def
  RemoveDuplicatesAndCalculatePadding_def

subsection \<open>One iteration\<close>

text \<open>No iteration that completes has changed \<^verbatim>\<open>to_remove\<close>.\<close>

lemma reconcile_pair_to_remove:
  "reconcile_pair seen tr i p s = Inr (seen', tr', s') \<Longrightarrow> tr' = tr"
  by (auto simp: reconcile_pair_def list_add_def Let_def split: if_splits)

lemma reconcile_pair_frame:
  "reconcile_pair seen tr i p s = Inr (seen', tr', s') \<Longrightarrow>
     s' = s\<lparr>size_sym := size_sym s', padding := padding s'\<rparr>"
  by (auto simp: reconcile_pair_def list_add_def Let_def split: if_splits)

lemma reconcile_pair_nonneg:
  "reconcile_pair seen tr i p s = Inr (seen', tr', s') \<Longrightarrow> 0 \<le> size_sym s
     \<Longrightarrow> 0 \<le> size_sym s'"
  by (auto simp: reconcile_pair_def list_add_def Let_def split: if_splits)

lemma frame_fields:
  "s' = s\<lparr>size_sym := a, padding := b\<rparr> \<Longrightarrow>
     name s' = name s \<and> full_name s' = full_name s \<and> address s' = address s \<and>
     section_sym s' = section_sym s \<and> section_name s' = section_name s \<and>
     object_path s' = object_path s \<and> source_path s' = source_path s \<and>
     is_anonymous s' = is_anonymous s"
  by simp

subsection \<open>The scan\<close>

lemma reconcile_scan_Cons_Inr:
  assumes "reconcile_scan seen tr i p (s # rest) = Inr (seen', tr', out)"
  obtains seen1 tr1 s1 out1 where
    "reconcile_pair seen tr i p s = Inr (seen1, tr1, s1)"
    "reconcile_scan seen1 tr1 (i + 1) s1 rest = Inr (seen', tr', out1)"
    "out = s1 # out1"
  using assms by (auto split: sum.splits prod.splits)

lemma reconcile_scan_to_remove:
  "reconcile_scan seen tr i p rest = Inr (seen', tr', out) \<Longrightarrow> tr' = tr"
proof (induction rest arbitrary: seen tr i p out)
  case Nil
  then show ?case by simp
next
  case (Cons s rest)
  from Cons.prems obtain seen1 tr1 s1 out1 where
    step: "reconcile_pair seen tr i p s = Inr (seen1, tr1, s1)" and
    tail: "reconcile_scan seen1 tr1 (i + 1) s1 rest = Inr (seen', tr', out1)"
    by (rule reconcile_scan_Cons_Inr)
  from Cons.IH[OF tail] reconcile_pair_to_remove[OF step] show ?case by simp
qed

lemma reconcile_scan_frame:
  "reconcile_scan seen tr i p rest = Inr (seen', tr', out) \<Longrightarrow>
     list_all2 (\<lambda>s' s. s' = s\<lparr>size_sym := size_sym s', padding := padding s'\<rparr>) out rest"
proof (induction rest arbitrary: seen tr i p out)
  case Nil
  then show ?case by simp
next
  case (Cons s rest)
  from Cons.prems obtain seen1 tr1 s1 out1 where
    step: "reconcile_pair seen tr i p s = Inr (seen1, tr1, s1)" and
    tail: "reconcile_scan seen1 tr1 (i + 1) s1 rest = Inr (seen', tr', out1)" and
    out: "out = s1 # out1"
    by (rule reconcile_scan_Cons_Inr)
  from Cons.IH[OF tail] reconcile_pair_frame[OF step] out show ?case by simp
qed

lemma reconcile_scan_nonneg:
  "reconcile_scan seen tr i p rest = Inr (seen', tr', out) \<Longrightarrow>
     \<forall>s \<in> set rest. 0 \<le> size_sym s \<Longrightarrow> \<forall>s \<in> set out. 0 \<le> size_sym s"
proof (induction rest arbitrary: seen tr i p out)
  case Nil
  then show ?case by simp
next
  case (Cons s rest)
  from Cons.prems(1) obtain seen1 tr1 s1 out1 where
    step: "reconcile_pair seen tr i p s = Inr (seen1, tr1, s1)" and
    tail: "reconcile_scan seen1 tr1 (i + 1) s1 rest = Inr (seen', tr', out1)" and
    out: "out = s1 # out1"
    by (rule reconcile_scan_Cons_Inr)
  have "0 \<le> size_sym s1"
    using reconcile_pair_nonneg[OF step] Cons.prems(2) by simp
  moreover have "\<forall>s \<in> set out1. 0 \<le> size_sym s"
    using Cons.IH[OF tail] Cons.prems(2) by simp
  ultimately show ?case using out by simp
qed

text \<open>
  Every symbol after the first is left by the scan as one iteration leaves it, run on the
  symbol and on its predecessor as the scan left that one.
\<close>

lemma reconcile_scan_nth:
  assumes "reconcile_scan seen tr i p rest = Inr (seen', tr', out)" and "k < length rest"
  shows "\<exists>sa sb. reconcile_pair sa tr (i + k) ((p # out) ! k) (rest ! k) = Inr (sb, tr, out ! k)"
  using assms
proof (induction rest arbitrary: seen tr i p out k)
  case Nil
  then show ?case by simp
next
  case (Cons s rest)
  from Cons.prems(1) obtain seen1 tr1 s1 out1 where
    step: "reconcile_pair seen tr i p s = Inr (seen1, tr1, s1)" and
    tail: "reconcile_scan seen1 tr1 (i + 1) s1 rest = Inr (seen', tr', out1)" and
    out: "out = s1 # out1"
    by (rule reconcile_scan_Cons_Inr)
  have tr1: "tr1 = tr" using reconcile_pair_to_remove[OF step] .
  show ?case
  proof (cases k)
    case 0
    with step out tr1 show ?thesis by auto
  next
    case (Suc j)
    with Cons.prems(2) have "j < length rest" by simp
    from Cons.IH[OF tail this] obtain sa sb where
      "reconcile_pair sa tr1 (i + 1 + j) ((s1 # out1) ! j) (rest ! j) = Inr (sb, tr1, out1 ! j)"
      by blast
    with out Suc tr1 show ?thesis by auto
  qed
qed

subsection \<open>The whole pass\<close>

text \<open>A pass that completes has removed nothing: \<^verbatim>\<open>to_remove\<close> is still empty.\<close>

lemma RemoveDuplicates_Inr:
  assumes "RemoveDuplicatesAndCalculatePadding (first # rest) = Inr out"
  obtains seen out1 where
    "reconcile_scan [] [] 0 first rest = Inr (seen, [], out1)" "out = first # out1"
proof -
  from assms obtain seen tr out1 where
    scan: "reconcile_scan [] [] 0 first rest = Inr (seen, tr, out1)"
    and res: "out = (if tr \<noteq> [] then group_minus (first # out1) tr else first # out1)"
    by (auto simp: RemoveDuplicatesAndCalculatePadding_def
        split: sum.splits prod.splits if_splits)
  have "tr = []" using reconcile_scan_to_remove[OF scan] .
  with scan res that show ?thesis by simp
qed

lemma reconcile_consecutive:
  assumes "RemoveDuplicatesAndCalculatePadding symbol_group = Inr out"
    and "Suc k < length symbol_group"
  shows "\<exists>sa sb. reconcile_pair sa [] k (out ! k) (symbol_group ! Suc k)
           = Inr (sb, [], out ! Suc k)"
proof (cases symbol_group)
  case Nil
  with assms show ?thesis by simp
next
  case (Cons first rest)
  with assms obtain seen out1 where
    scan: "reconcile_scan [] [] 0 first rest = Inr (seen, [], out1)"
    and out: "out = first # out1"
    by (auto elim: RemoveDuplicates_Inr)
  from assms(2) Cons have "k < length rest" by simp
  from reconcile_scan_nth[OF scan this] out Cons show ?thesis by simp
qed

lemma example_group_run:
  "RemoveDuplicatesAndCalculatePadding example_group = Inr example_padded"
  by (simp add: example_group_def example_padded_def reconcile_eval)

subsection \<open>Folding of symbols at one address\<close>

text \<open>
  Claim C1. When two consecutive symbols of one section share a positive address and the
  earlier one has a non-zero \<^verbatim>\<open>size_without_padding\<close>, the later symbol should be
  removed and one symbol of the larger size should stay. The code does not get there:
  once a scan reaches such a pair, in whatever state, it ends with the AttributeError of
  \<^verbatim>\<open>to_remove.add(symbol)\<close>, so no group is produced at all.
\<close>

theorem fold_same_address_raises:
  assumes "section_name prev_symbol = section_name symbol"
    and "0 < address symbol"
    and "address symbol = address prev_symbol"
    and "size_without_padding prev_symbol \<noteq> 0"
  shows "reconcile_scan seen_sections to_remove i prev_symbol (symbol # rest)
           = Inl (AttributeError ''list object has no attribute add'')"
  using assms by (simp add: reconcile_pair_def list_add_def)

text \<open>Two symbols at address 100, of sizes 4 and 8: the pass raises.\<close>

theorem fold_same_address_raises_witness:
  "RemoveDuplicatesAndCalculatePadding
     [raw_symbol ''a'' 100 4 ''t'' ''.text'' ''obj/a.o'',
      raw_symbol ''b'' 100 8 ''t'' ''.text'' ''obj/b.o'']
   = Inl (AttributeError ''list object has no attribute add'')"
  using fold_same_address_raises
    [where prev_symbol = "raw_symbol ''a'' 100 4 ''t'' ''.text'' ''obj/a.o''"
       and symbol = "raw_symbol ''b'' 100 8 ''t'' ''.text'' ''obj/b.o''"
       and seen_sections = "[]" and to_remove = "[]" and i = 0 and rest = "[]"]
  by (simp add: RemoveDuplicatesAndCalculatePadding_def raw_symbol_def
      size_without_padding_def)

subsection \<open>The padding thresholds\<close>

text \<open>
  Claim C2. Take two consecutive symbols of one section, both at positive addresses and of
  non-negative size, the later one not named with the marker \<^verbatim>\<open>*\<close>, and let \<open>gap\<close> be
  the distance from the end of the earlier symbol to the start of the later one. In a
  read-only or data section (\<^verbatim>\<open>r\<close>, \<^verbatim>\<open>d\<close>) a gap of 256 bytes or more leaves the
  later symbol as it is, and a smaller positive gap (255 bytes at most) becomes its
  padding and is added to its size. In a code section (\<^verbatim>\<open>t\<close>) the same holds with 64
  in place of 256.
\<close>

theorem padding_threshold_boundary:
  assumes "section_name prev_symbol = section_name symbol"
    and "0 < address prev_symbol" and "0 < address symbol"
    and "0 \<le> size_sym prev_symbol" and "0 \<le> size_sym symbol"
    and "\<not> startswith (name symbol) ''*''"
    and "gap = address symbol - end_address prev_symbol"
    and "rd = (section_sym symbol = ''r'' \<or> section_sym symbol = ''d'')"
    and "t = (section_sym symbol = ''t'')"
  shows "(rd \<and> 256 \<le> gap \<longrightarrow>
            reconcile_pair seen_sections to_remove i prev_symbol symbol =
              Inr (seen_sections, to_remove, symbol)) \<and>
         (rd \<and> 0 < gap \<and> gap < 256 \<longrightarrow>
            reconcile_pair seen_sections to_remove i prev_symbol symbol =
              Inr (seen_sections, to_remove,
                   symbol\<lparr>padding := gap, size_sym := size_sym symbol + gap\<rparr>)) \<and>
         (t \<and> 64 \<le> gap \<longrightarrow>
            reconcile_pair seen_sections to_remove i prev_symbol symbol =
              Inr (seen_sections, to_remove, symbol)) \<and>
         (t \<and> 0 < gap \<and> gap < 64 \<longrightarrow>
            reconcile_pair seen_sections to_remove i prev_symbol symbol =
              Inr (seen_sections, to_remove,
                   symbol\<lparr>padding := gap, size_sym := size_sym symbol + gap\<rparr>))"
proof -
  have in_rd: "str_in ''r'' ''rd''" "str_in ''d'' ''rd''" "\<not> str_in ''t'' ''rd''"
    by (simp_all add: str_in_def startswith_def)
  have in_t: "\<not> str_in ''r'' ''t''" "\<not> str_in ''d'' ''t''" "str_in ''t'' ''t''"
    by (simp_all add: str_in_def startswith_def)
  have no_fold: "address symbol \<noteq> address prev_symbol" if "0 < gap"
    using that assms(4,7) by (simp add: end_address_def)
  show ?thesis
    using assms in_rd in_t no_fold
    by (auto simp: reconcile_pair_def Let_def)
qed

text \<open>
  After a symbol of 16 bytes at address 4096: gaps of 256 and of 255 bytes in
  \<^verbatim>\<open>.rodata\<close>, gaps of 64 and of 63 bytes in \<^verbatim>\<open>.text\<close>.
\<close>

theorem padding_threshold_boundary_witness:
  "reconcile_pair [] [] 0 (raw_symbol ''a'' 4096 16 ''r'' ''.rodata'' '''')
       (raw_symbol ''b'' 4368 8 ''r'' ''.rodata'' '''')
     = Inr ([], [], raw_symbol ''b'' 4368 8 ''r'' ''.rodata'' '''') \<and>
   reconcile_pair [] [] 0 (raw_symbol ''a'' 4096 16 ''r'' ''.rodata'' '''')
       (raw_symbol ''b'' 4367 8 ''r'' ''.rodata'' '''')
     = Inr ([], [], (raw_symbol ''b'' 4367 8 ''r'' ''.rodata'' '''')
                      \<lparr>padding := 255, size_sym := 263\<rparr>) \<and>
   reconcile_pair [] [] 0 (raw_symbol ''f'' 4096 16 ''t'' ''.text'' '''')
       (raw_symbol ''g'' 4176 8 ''t'' ''.text'' '''')
     = Inr ([], [], raw_symbol ''g'' 4176 8 ''t'' ''.text'' '''') \<and>
   reconcile_pair [] [] 0 (raw_symbol ''f'' 4096 16 ''t'' ''.text'' '''')
       (raw_symbol ''g'' 4175 8 ''t'' ''.text'' '''')
     = Inr ([], [], (raw_symbol ''g'' 4175 8 ''t'' ''.text'' '''')
                      \<lparr>padding := 63, size_sym := 71\<rparr>)"
  using
    padding_threshold_boundary
      [where prev_symbol = "raw_symbol ''a'' 4096 16 ''r'' ''.rodata'' ''''"
         and symbol = "raw_symbol ''b'' 4368 8 ''r'' ''.rodata'' ''''"
         and gap = 256 and rd = True and t = False
         and seen_sections = "[]" and to_remove = "[]" and i = 0]
    padding_threshold_boundary
      [where prev_symbol = "raw_symbol ''a'' 4096 16 ''r'' ''.rodata'' ''''"
         and symbol = "raw_symbol ''b'' 4367 8 ''r'' ''.rodata'' ''''"
         and gap = 255 and rd = True and t = False
         and seen_sections = "[]" and to_remove = "[]" and i = 0]
    padding_threshold_boundary
      [where prev_symbol = "raw_symbol ''f'' 4096 16 ''t'' ''.text'' ''''"
         and symbol = "raw_symbol ''g'' 4176 8 ''t'' ''.text'' ''''"
         and gap = 64 and rd = False and t = True
         and seen_sections = "[]" and to_remove = "[]" and i = 0]
    padding_threshold_boundary
      [where prev_symbol = "raw_symbol ''f'' 4096 16 ''t'' ''.text'' ''''"
         and symbol = "raw_symbol ''g'' 4175 8 ''t'' ''.text'' ''''"
         and gap = 63 and rd = False and t = True
         and seen_sections = "[]" and to_remove = "[]" and i = 0]
  by (simp add: raw_symbol_def end_address_def startswith_def)

subsection \<open>No negative size\<close>

text \<open>
  Claim C3. When no symbol of the input group has a negative size, no symbol of a group
  that the reconciler produces has one. Where the pass attributes a gap to a symbol (the
  pair is in one section, at positive addresses, is not folded and is not skipped for a
  large gap) and the sum of the size and the gap is negative, the scan ends with the
  assertion error about a negative size, whatever its state and whatever follows.
\<close>

theorem reconciler_never_negative_size:
  assumes "\<forall>s \<in> set symbol_group. 0 \<le> size_sym s"
  shows "(\<forall>out. RemoveDuplicatesAndCalculatePadding symbol_group = Inr out \<longrightarrow>
            (\<forall>s \<in> set out. 0 \<le> size_sym s)) \<and>
         (section_name prev_symbol = section_name symbol \<and>
          0 < address symbol \<and> 0 < address prev_symbol \<and>
          \<not> (address symbol = address prev_symbol \<and> size_without_padding prev_symbol \<noteq> 0) \<and>
          \<not> (\<not> startswith (name symbol) ''*'' \<and>
               (str_in (section_sym symbol) ''rd'' \<and>
                  address symbol - end_address prev_symbol \<ge> 256 \<or>
                str_in (section_sym symbol) ''t'' \<and>
                  address symbol - end_address prev_symbol \<ge> 64)) \<and>
          size_sym symbol + (address symbol - end_address prev_symbol) < 0 \<longrightarrow>
          reconcile_scan seen_sections to_remove i prev_symbol (symbol # rest) =
            Inl (AssertionError ''Symbol has negative size (likely not sorted propertly): ''))"
proof (intro conjI allI impI)
  fix out
  assume run: "RemoveDuplicatesAndCalculatePadding symbol_group = Inr out"
  show "\<forall>s \<in> set out. 0 \<le> size_sym s"
  proof (cases symbol_group)
    case Nil
    with run show ?thesis by (simp add: RemoveDuplicatesAndCalculatePadding_def)
  next
    case (Cons first rest)
    with run obtain seen out1 where
      scan: "reconcile_scan [] [] 0 first rest = Inr (seen, [], out1)"
      and out: "out = first # out1"
      by (auto elim: RemoveDuplicates_Inr)
    from reconcile_scan_nonneg[OF scan] assms Cons out show ?thesis by simp
  qed
next
  assume "section_name prev_symbol = section_name symbol \<and>
          0 < address symbol \<and> 0 < address prev_symbol \<and>
          \<not> (address symbol = address prev_symbol \<and> size_without_padding prev_symbol \<noteq> 0) \<and>
          \<not> (\<not> startswith (name symbol) ''*'' \<and>
               (str_in (section_sym symbol) ''rd'' \<and>
                  address symbol - end_address prev_symbol \<ge> 256 \<or>
                str_in (section_sym symbol) ''t'' \<and>
                  address symbol - end_address prev_symbol \<ge> 64)) \<and>
          size_sym symbol + (address symbol - end_address prev_symbol) < 0"
  then show "reconcile_scan seen_sections to_remove i prev_symbol (symbol # rest) =
            Inl (AssertionError ''Symbol has negative size (likely not sorted propertly): '')"
    by (auto simp: reconcile_pair_def Let_def)
qed

text \<open>
  The example group is reconciled to sizes 4, 14 and 16. A symbol of 10 bytes at address
  110, after one that covers the addresses 100 to 150, would get the size \<open>-30\<close>: the
  pass raises.
\<close>

theorem reconciler_never_negative_size_witness:
  "RemoveDuplicatesAndCalculatePadding example_group = Inr example_padded \<and>
   map size_sym example_padded = [4, 14, 16] \<and>
   0 \<le> size_sym (example_padded ! 1) \<and>
   RemoveDuplicatesAndCalculatePadding
     [raw_symbol ''a'' 100 50 ''t'' ''.text'' '''', raw_symbol ''b'' 110 10 ''t'' ''.text'' '''']
   = Inl (AssertionError ''Symbol has negative size (likely not sorted propertly): '')"
proof -
  have sizes: "\<forall>s \<in> set example_group. 0 \<le> size_sym s"
    by (simp add: example_group_def raw_symbol_def)
  note inst = reconciler_never_negative_size
    [OF sizes,
     where prev_symbol = "raw_symbol ''a'' 100 50 ''t'' ''.text'' ''''"
       and symbol = "raw_symbol ''b'' 110 10 ''t'' ''.text'' ''''"
       and seen_sections = "[]" and to_remove = "[]" and i = 0 and rest = "[]"]
  have "\<forall>s \<in> set example_padded. 0 \<le> size_sym s"
    using inst example_group_run by blast
  then have "0 \<le> size_sym (example_padded ! 1)"
    by (simp add: example_padded_def)
  moreover have "reconcile_scan [] [] 0 (raw_symbol ''a'' 100 50 ''t'' ''.text'' '''')
       [raw_symbol ''b'' 110 10 ''t'' ''.text'' '''']
     = Inl (AssertionError ''Symbol has negative size (likely not sorted propertly): '')"
    using inst
    by (simp add: raw_symbol_def end_address_def size_without_padding_def str_in_def
        startswith_def)
  ultimately show ?thesis
    using example_group_run
    by (simp add: RemoveDuplicatesAndCalculatePadding_def example_padded_def raw_symbol_def)
qed

subsection \<open>The frame of the pass\<close>

text \<open>
  Claim C10. A pass that completes keeps every symbol of the group, in its place, and
  changes at most the size and the padding of a symbol: the name, the full name, the
  address, the section letter, the section name, the object path, the source path and
  the anonymous flag of every symbol are what they were.
\<close>

theorem reconciler_frame:
  assumes "RemoveDuplicatesAndCalculatePadding symbol_group = Inr out"
  shows "length out = length symbol_group \<and>
         (\<forall>k < length symbol_group.
            name (out ! k) = name (symbol_group ! k) \<and>
            full_name (out ! k) = full_name (symbol_group ! k) \<and>
            address (out ! k) = address (symbol_group ! k) \<and>
            section_sym (out ! k) = section_sym (symbol_group ! k) \<and>
            section_name (out ! k) = section_name (symbol_group ! k) \<and>
            object_path (out ! k) = object_path (symbol_group ! k) \<and>
            source_path (out ! k) = source_path (symbol_group ! k) \<and>
            is_anonymous (out ! k) = is_anonymous (symbol_group ! k))"
proof (cases symbol_group)
  case Nil
  with assms show ?thesis by (simp add: RemoveDuplicatesAndCalculatePadding_def)
next
  case (Cons first rest)
  with assms obtain seen out1 where
    scan: "reconcile_scan [] [] 0 first rest = Inr (seen, [], out1)"
    and out: "out = first # out1"
    by (auto elim: RemoveDuplicates_Inr)
  let ?R = "\<lambda>s' s. s' = s\<lparr>size_sym := size_sym s', padding := padding s'\<rparr>"
  have all2: "list_all2 ?R out symbol_group"
    using reconcile_scan_frame[OF scan] out Cons by simp
  then have len: "length out = length symbol_group" by (rule list_all2_lengthD)
  have "\<And>k. k < length symbol_group \<Longrightarrow> ?R (out ! k) (symbol_group ! k)"
    using list_all2_nthD2[OF all2] by blast
  then have "\<And>k. k < length symbol_group \<Longrightarrow>
        name (out ! k) = name (symbol_group ! k) \<and>
        full_name (out ! k) = full_name (symbol_group ! k) \<and>
        address (out ! k) = address (symbol_group ! k) \<and>
        section_sym (out ! k) = section_sym (symbol_group ! k) \<and>
        section_name (out ! k) = section_name (symbol_group ! k) \<and>
        object_path (out ! k) = object_path (symbol_group ! k) \<and>
        source_path (out ! k) = source_path (symbol_group ! k) \<and>
        is_anonymous (out ! k) = is_anonymous (symbol_group ! k)"
    by (rule frame_fields)
  with len show ?thesis by blast
qed

text \<open>In the example group the second symbol gets 6 bytes of padding and keeps the rest.\<close>

theorem reconciler_frame_witness:
  "RemoveDuplicatesAndCalculatePadding example_group = Inr example_padded \<and>
   length example_padded = length example_group \<and>
   padding (example_padded ! 1) = 6 \<and> size_sym (example_padded ! 1) = 14 \<and>
   name (example_padded ! 1) = name (example_group ! 1) \<and>
   address (example_padded ! 1) = address (example_group ! 1) \<and>
   object_path (example_padded ! 1) = object_path (example_group ! 1)"
proof -
  have k: "(1::nat) < length example_group" by (simp add: example_group_def)
  note frame = reconciler_frame[OF example_group_run]
  from frame have "length example_padded = length example_group" by blast
  moreover from frame k have
    "name (example_padded ! 1) = name (example_group ! 1) \<and>
     address (example_padded ! 1) = address (example_group ! 1) \<and>
     object_path (example_padded ! 1) = object_path (example_group ! 1)"
    by blast
  moreover have "padding (example_padded ! 1) = 6 \<and> size_sym (example_padded ! 1) = 14"
    by (simp add: example_padded_def)
  ultimately show ?thesis using example_group_run by blast
qed

section \<open>Properties of the pipeline\<close>

subsection \<open>File names\<close>

lemma endswith_last:
  assumes "endswith s p" "p \<noteq> []"
  shows "s \<noteq> [] \<and> last s = last p"
proof -
  from assms have len: "length p \<le> length s" and eq: "drop (length s - length p) s = p"
    by (simp_all add: endswith_def)
  from len assms(2) have "s \<noteq> []" by auto
  moreover have "last (drop (length s - length p) s) = last s"
    using len assms(2) by (intro last_drop) (cases p; simp; arith)
  ultimately show ?thesis using eq by simp
qed

lemma map_not_size:
  "endswith path ''.map'' \<or> endswith path ''.map.gz'' \<Longrightarrow> \<not> endswith path ''.size''"
  using endswith_last[of path "''.map''"] endswith_last[of path "''.map.gz''"]
    endswith_last[of path "''.size''"]
  by auto

subsection \<open>The stages before the source resolver keep the paths\<close>

lemma reconcile_scan_paths:
  "reconcile_scan seen tr i p rest = Inr (seen', tr', out) \<Longrightarrow> paths_of out = paths_of rest"
proof -
  assume "reconcile_scan seen tr i p rest = Inr (seen', tr', out)"
  from reconcile_scan_frame[OF this]
  have "list_all2 (\<lambda>s' s. (source_path s', object_path s') = (source_path s, object_path s)) out rest"
    by (rule list_all2_mono) (use frame_fields in blast)
  then show ?thesis
    unfolding paths_of_def by (induction rule: list_all2_induct) auto
qed

lemma RemoveDuplicates_paths:
  assumes "RemoveDuplicatesAndCalculatePadding g = Inr out"
  shows "paths_of out = paths_of g"
proof (cases g)
  case Nil
  with assms show ?thesis by (simp add: RemoveDuplicatesAndCalculatePadding_def)
next
  case (Cons first rest)
  with assms obtain seen out1 where
    scan: "reconcile_scan [] [] 0 first rest = Inr (seen, [], out1)"
    and out: "out = first # out1"
    by (auto elim: RemoveDuplicates_Inr)
  from reconcile_scan_paths[OF scan] out Cons show ?thesis by (simp add: paths_of_def)
qed

lemma paths_of_rename:
  "paths_of (g[j := (g ! j)\<lparr>name := l\<rparr>]) = paths_of g"
proof (cases "j < length g")
  case True
  then show ?thesis by (simp add: paths_of_def map_update list_update_same_conv)
next
  case False
  then have "length g \<le> j" by simp
  then have "g[j := (g ! j)\<lparr>name := l\<rparr>] = g" by (rule list_update_beyond)
  then show ?thesis by simp
qed

lemma assign_lines_paths:
  "assign_lines to_process i lines g = Inr out \<Longrightarrow> paths_of out = paths_of g"
  by (induction to_process i lines g rule: assign_lines.induct)
     (auto simp: paths_of_rename split: if_splits)

lemma Unmangle_paths:
  "fst (UnmangleRemainingSymbols demangle g) = Inr out \<Longrightarrow> paths_of out = paths_of g"
  by (auto simp: UnmangleRemainingSymbols_def Let_def assign_lines_paths
      split: if_splits prod.splits)

text \<open>
  \<^verbatim>\<open>all_found\<close> is true at the end exactly when it was true at the start and the
  lookup answered with a path for every symbol that has no source path and has an object
  path that does not start with two dots.
\<close>

lemma ExtractSourcePaths_all_found:
  "fst (ExtractSourcePaths f af g) =
     (af \<and> (\<forall>p \<in> set (paths_of g).
        \<not> (fst p = [] \<and> snd p \<noteq> [] \<and> \<not> startswith (snd p) ''..'' \<and>
           (f (snd p) = None \<or> f (snd p) = Some []))))"
  by (induction f af g rule: ExtractSourcePaths.induct)
     (auto simp: paths_of_def split: prod.splits option.splits)

subsection \<open>The example run\<close>

lemmas pipeline_eval =
  Analyze_def endswith_def example_collaborators_def 
  UnmangleRemainingSymbols_def example_padded_def raw_symbol_def startswith_def
  NormalizeNames_def normalize_symbol_def move_prefixes_def parse_signature_def
  remove_anonymous_def strip_parens_def clear_full_name_def
  rewrite_for_def rewrite_to_def find_upto_def
  NormalizeSourcePath_def normalize_object_path_def Let_def

lemma example_analyze: "Analyze example_collaborators ''libfoo.so.map'' = Inr example_size_info"
  by (simp add: pipeline_eval example_group_run example_size_info_def)

subsection \<open>Loading a snapshot\<close>

text \<open>
  For a path that ends in \<^verbatim>\<open>.size\<close>, \<^verbatim>\<open>Analyze\<close> runs the reconciler and the name
  normalizer on the loaded symbols and nothing else: the demangler, the build-dependency
  lookup and the map parser have no part in the result.
\<close>

lemma Analyze_snapshot:
  assumes "endswith path ''.size''"
  shows "Analyze ext path =
     (case RemoveDuplicatesAndCalculatePadding (symbols (LoadSizeInfo ext path)) of
        Inl e \<Rightarrow> Inl e
      | Inr padded \<Rightarrow>
          Inr ((LoadSizeInfo ext path)\<lparr>symbols := NormalizeNames (Parse ext) padded\<rparr>))"
  using assms by (simp add: Analyze_def Let_def)

lemma Analyze_snapshot_collaborators:
  assumes "endswith path ''.size''"
  shows "Analyze (ext\<lparr>cppfilt := c, FindSourceForPath := f, MapFileParse := m\<rparr>) path =
     Analyze ext path"
  using assms by (simp add: Analyze_def Let_def cong: sum.case_cong)

subsection \<open>The check of the section sizes\<close>

lemma check_section_sizes_iff:
  "check_section_sizes elf sizes =
     (if \<forall>(k, v) \<in> set elf. map_of sizes k = Some v then Inr ()
      else Inl (AssertionError ''ELF file and .map file do not match.''))"
  by (induction elf sizes rule: check_section_sizes.induct) auto

text \<open>
  Claim C4. On a run with metadata, that is a run on an ELF file, after \<^verbatim>\<open>Analyze\<close>
  has returned a \<^verbatim>\<open>SizeInfo\<close>: the snapshot is written, with the metadata, exactly when
  every section size read from the ELF file equals the entry of \<^verbatim>\<open>section_sizes\<close> for
  that section name. When one of them differs from the entry, or the entry is absent, the
  run ends with the assertion error and nothing is written.
\<close>

theorem section_size_mismatch_aborts:
  assumes "Analyze ext map_file_path = Inr size_info"
  shows "main_run ext map_file_path (Some m) elf_section_sizes =
     (if \<forall>(k, v) \<in> set elf_section_sizes. map_of (section_sizes size_info) k = Some v
      then Inr (size_info\<lparr>metadata := Some m\<rparr>)
      else Inl (AssertionError ''ELF file and .map file do not match.''))"
  using assms
  by (simp add: main_run_def validate_and_save_def check_section_sizes_iff)

text \<open>
  The example run with the sizes of \<^verbatim>\<open>.text\<close> and \<^verbatim>\<open>.data\<close> as the map has them,
  with \<^verbatim>\<open>.data\<close> one byte larger, and with a section that the map does not list.
\<close>

theorem section_size_mismatch_aborts_witness:
  "main_run example_collaborators ''libfoo.so.map'' (Some example_metadata)
       [(''.text'', 18), (''.data'', 16)]
     = Inr (example_size_info\<lparr>metadata := Some example_metadata\<rparr>) \<and>
   main_run example_collaborators ''libfoo.so.map'' (Some example_metadata)
       [(''.text'', 18), (''.data'', 17)]
     = Inl (AssertionError ''ELF file and .map file do not match.'') \<and>
   main_run example_collaborators ''libfoo.so.map'' (Some example_metadata)
       [(''.text'', 18), (''.bss'', 4)]
     = Inl (AssertionError ''ELF file and .map file do not match.'')"
  using
    section_size_mismatch_aborts[OF example_analyze, of example_metadata
      "[(''.text'', 18), (''.data'', 16)]"]
    section_size_mismatch_aborts[OF example_analyze, of example_metadata
      "[(''.text'', 18), (''.data'', 17)]"]
    section_size_mismatch_aborts[OF example_analyze, of example_metadata
      "[(''.text'', 18), (''.bss'', 4)]"]
  by (simp add: example_size_info_def)

subsection \<open>Source paths that are not found\<close>

text \<open>
  Claim C9. On a run on a linker map (a path that ends in \<^verbatim>\<open>.map\<close> or \<^verbatim>\<open>.map.gz\<close>),
  when a symbol of the map has no source path, has an object path that is not empty and
  does not start with two dots, and the build-dependency lookup has no source path for
  that object path, \<^verbatim>\<open>Analyze\<close> ends with an exception and so does the run: no
  snapshot is written. When the reconciler and the unmangler complete, the exception is
  the assertion error about source paths that could not be found.
\<close>

theorem unresolved_source_path_aborts:
  assumes fresh: "endswith path ''.map'' \<or> endswith path ''.map.gz''"
    and member: "s \<in> set (snd (MapFileParse ext path))"
    and eligible: "source_path s = []" "object_path s \<noteq> []"
      "\<not> startswith (object_path s) ''..''"
    and unresolved: "FindSourceForPath ext (object_path s) = None \<or>
      FindSourceForPath ext (object_path s) = Some []"
  shows "(\<exists>e. Analyze ext path = Inl e) \<and>
         (\<exists>e. main_run ext path md elf_section_sizes = Inl e) \<and>
         (\<forall>padded unmangled.
            RemoveDuplicatesAndCalculatePadding (snd (MapFileParse ext path)) = Inr padded \<and>
            fst (UnmangleRemainingSymbols (cppfilt ext) padded) = Inr unmangled \<longrightarrow>
            Analyze ext path =
              Inl (AssertionError ''One or more source file paths could not be found.''))"
proof -
  let ?raw = "snd (MapFileParse ext path)"
  let ?msg = "AssertionError ''One or more source file paths could not be found.''"
  have not_size: "\<not> endswith path ''.size''" using fresh by (rule map_not_size)
  have bad: "(source_path s, object_path s) \<in> set (paths_of ?raw)"
    using member by (auto simp: paths_of_def)
  have step: "Analyze ext path = Inl ?msg"
    if p: "RemoveDuplicatesAndCalculatePadding ?raw = Inr padded"
    and u: "fst (UnmangleRemainingSymbols (cppfilt ext) padded) = Inr unmangled"
    for padded unmangled
  proof -
    have "paths_of unmangled = paths_of ?raw"
      using RemoveDuplicates_paths[OF p] Unmangle_paths[OF u] by simp
    with bad eligible unresolved
    have "\<not> fst (ExtractSourcePaths (FindSourceForPath ext) True unmangled)"
      unfolding ExtractSourcePaths_all_found by force
    with p u fresh not_size show ?thesis
      by (auto simp: Analyze_def Let_def split: prod.splits)
  qed
  have abort: "\<exists>e. Analyze ext path = Inl e"
  proof (cases "RemoveDuplicatesAndCalculatePadding ?raw")
    case (Inl e)
    with fresh not_size show ?thesis
      by (auto simp: Analyze_def Let_def split: prod.splits)
  next
    case p: (Inr padded)
    show ?thesis
    proof (cases "fst (UnmangleRemainingSymbols (cppfilt ext) padded)")
      case (Inl e)
      with p fresh not_size show ?thesis
        by (auto simp: Analyze_def Let_def split: prod.splits)
    next
      case (Inr unmangled)
      from step[OF p this] show ?thesis by blast
    qed
  qed
  moreover from abort have "\<exists>e. main_run ext path md elf_section_sizes = Inl e"
    by (auto simp: main_run_def)
  ultimately show ?thesis using step by blast
qed

text \<open>The example run with a lookup that finds nothing.\<close>

theorem unresolved_source_path_aborts_witness:
  "Analyze (example_collaborators\<lparr>FindSourceForPath := \<lambda>p. None\<rparr>) ''libfoo.so.map''
     = Inl (AssertionError ''One or more source file paths could not be found.'') \<and>
   main_run (example_collaborators\<lparr>FindSourceForPath := \<lambda>p. None\<rparr>) ''libfoo.so.map''
       None []
     = Inl (AssertionError ''One or more source file paths could not be found.'')"
proof -
  let ?ext = "example_collaborators\<lparr>FindSourceForPath := \<lambda>p. None\<rparr>"
  let ?s = "raw_symbol ''a'' 100 4 ''t'' ''.text'' ''obj/a.o''"
  have fresh: "endswith ''libfoo.so.map'' ''.map'' \<or> endswith ''libfoo.so.map'' ''.map.gz''"
    by (simp add: endswith_def)
  have member: "?s \<in> set (snd (MapFileParse ?ext ''libfoo.so.map''))"
    by (simp add: example_collaborators_def example_group_def)
  have eligible: "source_path ?s = []" "object_path ?s \<noteq> []"
    "\<not> startswith (object_path ?s) ''..''"
    by (simp_all add: raw_symbol_def startswith_def)
  have unresolved: "FindSourceForPath ?ext (object_path ?s) = None \<or>
      FindSourceForPath ?ext (object_path ?s) = Some []"
    by simp
  note inst = unresolved_source_path_aborts[OF fresh member eligible unresolved,
      where md = None and elf_section_sizes = "[]"]
  have padded: "RemoveDuplicatesAndCalculatePadding (snd (MapFileParse ?ext ''libfoo.so.map''))
      = Inr example_padded"
    by (simp add: example_collaborators_def example_group_run)
  have unmangled: "fst (UnmangleRemainingSymbols (cppfilt ?ext) example_padded)
      = Inr example_padded"
    by (simp add: UnmangleRemainingSymbols_def example_padded_def raw_symbol_def
        startswith_def)
  from inst padded unmangled have "Analyze ?ext ''libfoo.so.map''
      = Inl (AssertionError ''One or more source file paths could not be found.'')"
    by blast
  then show ?thesis by (simp add: main_run_def)
qed

section \<open>Properties of the Unmangler\<close>

subsection \<open>The loop over the output lines\<close>

lemma assign_lines_overflow:
  "i \<le> length to_process \<Longrightarrow> length to_process < i + length lines \<Longrightarrow>
     assign_lines to_process i lines g = Inl (IndexError ''list index out of range'')"
  by (induction to_process i lines g rule: assign_lines.induct) auto

lemma assign_lines_ok:
  assumes "i + length lines \<le> length to_process" "distinct to_process"
    "\<forall>j \<in> set to_process. j < length g"
  shows "\<exists>out. assign_lines to_process i lines g = Inr out \<and> length out = length g \<and>
     (\<forall>k < length lines. out ! (to_process ! (i + k)) = (g ! (to_process ! (i + k)))\<lparr>name := lines ! k\<rparr>) \<and>
     (\<forall>j < length g. j \<notin> set (take (length lines) (drop i to_process)) \<longrightarrow> out ! j = g ! j)"
  using assms
proof (induction lines arbitrary: i g)
  case Nil
  then show ?case by simp
next
  case (Cons line lines)
  let ?t = "to_process ! i"
  let ?g = "g[?t := (g ! ?t)\<lparr>name := line\<rparr>]"
  from Cons.prems have i: "i < length to_process" by simp
  then have t: "?t < length g" using Cons.prems(3) by simp
  have pre: "(i + 1) + length lines \<le> length to_process" "\<forall>j \<in> set to_process. j < length ?g"
    using Cons.prems by simp_all
  from Cons.IH[OF pre(1) Cons.prems(2) pre(2)] obtain out where
    run: "assign_lines to_process (i + 1) lines ?g = Inr out" and len: "length out = length g"
    and hit: "\<forall>k < length lines. out ! (to_process ! (i + 1 + k)) =
        (?g ! (to_process ! (i + 1 + k)))\<lparr>name := lines ! k\<rparr>"
    and miss: "\<forall>j < length g. j \<notin> set (take (length lines) (drop (i + 1) to_process)) \<longrightarrow>
        out ! j = ?g ! j"
    by auto
  have drop_i: "drop i to_process = ?t # drop (i + 1) to_process"
    using i by (simp add: Cons_nth_drop_Suc)
  have t_notin: "?t \<notin> set (drop (i + 1) to_process)"
    using Cons.prems(2) drop_i by (metis distinct.simps(2) distinct_drop)
  then have t_notin': "?t \<notin> set (take (length lines) (drop (i + 1) to_process))"
    by (meson in_set_takeD)
  have other: "to_process ! (i + 1 + k) \<noteq> ?t" if "k < length lines" for k
  proof -
    from that pre(1) have "i + 1 + k < length to_process" by simp
    moreover have "i + 1 + k \<noteq> i" by simp
    ultimately show ?thesis using i Cons.prems(2) by (simp add: nth_eq_iff_index_eq)
  qed
  have "assign_lines to_process i (line # lines) g = Inr out" using run i by simp
  moreover have "\<forall>k < length (line # lines).
      out ! (to_process ! (i + k)) = (g ! (to_process ! (i + k)))\<lparr>name := (line # lines) ! k\<rparr>"
  proof (intro allI impI)
    fix k assume k: "k < length (line # lines)"
    show "out ! (to_process ! (i + k)) = (g ! (to_process ! (i + k)))\<lparr>name := (line # lines) ! k\<rparr>"
    proof (cases k)
      case 0
      from miss t t_notin' have "out ! ?t = ?g ! ?t" by simp
      with t 0 show ?thesis by simp
    next
      case (Suc k')
      with k have k': "k' < length lines" by simp
      from hit k' have "out ! (to_process ! (i + 1 + k')) =
          (?g ! (to_process ! (i + 1 + k')))\<lparr>name := lines ! k'\<rparr>" by simp
      with other[OF k'] Suc show ?thesis by simp
    qed
  qed
  moreover have "\<forall>j < length g. j \<notin> set (take (length (line # lines)) (drop i to_process)) \<longrightarrow>
      out ! j = g ! j"
  proof (intro allI impI)
    fix j assume j: "j < length g"
      and "j \<notin> set (take (length (line # lines)) (drop i to_process))"
    then have "j \<noteq> ?t" "j \<notin> set (take (length lines) (drop (i + 1) to_process))"
      by (simp_all add: drop_i)
    with miss j show "out ! j = g ! j" by simp
  qed
  ultimately show ?case using len by blast
qed

subsection \<open>What the demangler's answer leads to\<close>

text \<open>
  Claim C8, as amended. Let \<open>to_process\<close> be the positions of the symbols whose name starts
  with \<^verbatim>\<open>_Z\<close>. When there are none, no process is started. Otherwise one process is
  started, whatever it answers, and: an exit code other than zero ends the run with an
  assertion error; more output lines than names end it with an index error; with as many
  lines or fewer the call completes, the first names are overwritten by the lines, in
  order, and every other symbol of the group, the mangled ones that no line is left for
  among them, is as it was.
\<close>

theorem unmangle_contract:
  assumes tp: "to_process = filter (\<lambda>j. startswith (name (g ! j)) ''_Z'') [0..<length g]"
    and run: "demangle (join_nl (map (\<lambda>j. name (g ! j)) to_process)) = (returncode, stdout)"
    and lines: "lines = splitlines stdout"
  shows "(to_process = [] \<longrightarrow> UnmangleRemainingSymbols demangle g = (Inr g, 0)) \<and>
         (to_process \<noteq> [] \<and> returncode \<noteq> 0 \<longrightarrow>
            UnmangleRemainingSymbols demangle g =
              (Inl (AssertionError ''proc.returncode == 0''), 1)) \<and>
         (to_process \<noteq> [] \<and> returncode = 0 \<and> length to_process < length lines \<longrightarrow>
            UnmangleRemainingSymbols demangle g =
              (Inl (IndexError ''list index out of range''), 1)) \<and>
         (to_process \<noteq> [] \<and> returncode = 0 \<and> length lines \<le> length to_process \<longrightarrow>
            (\<exists>out. UnmangleRemainingSymbols demangle g = (Inr out, 1) \<and>
               length out = length g \<and>
               (\<forall>k < length lines.
                  out ! (to_process ! k) = (g ! (to_process ! k))\<lparr>name := lines ! k\<rparr>) \<and>
               (\<forall>j < length g. j \<notin> set (take (length lines) to_process) \<longrightarrow>
                  out ! j = g ! j)))"
proof -
  have dist: "distinct to_process" and bound: "\<forall>j \<in> set to_process. j < length g"
    unfolding tp by auto
  have unfold: "UnmangleRemainingSymbols demangle g =
      (if to_process = [] then (Inr g, 0)
       else if returncode \<noteq> 0 then (Inl (AssertionError ''proc.returncode == 0''), 1)
       else (assign_lines to_process 0 lines g, 1))"
    using run unfolding UnmangleRemainingSymbols_def tp[symmetric] lines Let_def by simp
  have more: "assign_lines to_process 0 lines g = Inl (IndexError ''list index out of range'')"
    if "length to_process < length lines"
    using that by (intro assign_lines_overflow) simp_all
  have fewer: "\<exists>out. assign_lines to_process 0 lines g = Inr out \<and> length out = length g \<and>
       (\<forall>k < length lines.
          out ! (to_process ! k) = (g ! (to_process ! k))\<lparr>name := lines ! k\<rparr>) \<and>
       (\<forall>j < length g. j \<notin> set (take (length lines) to_process) \<longrightarrow> out ! j = g ! j)"
    if "length lines \<le> length to_process"
    using assign_lines_ok[of 0 lines to_process g] that dist bound by simp
  show ?thesis
    unfolding unfold using more fewer by auto
qed

text \<open>
  Two mangled names around an unmangled one: an exit code of 1, three lines, two lines,
  and one line for the two names.
\<close>

theorem unmangle_contract_witness:
  "UnmangleRemainingSymbols (\<lambda>inp. (1, '''')) example_mangled
     = (Inl (AssertionError ''proc.returncode == 0''), 1) \<and>
   UnmangleRemainingSymbols (\<lambda>inp. (0, ''foo()'' @ [CHR 0x0A] @ ''bar()'' @ [CHR 0x0A] @ ''x''))
       example_mangled
     = (Inl (IndexError ''list index out of range''), 1) \<and>
   UnmangleRemainingSymbols (\<lambda>inp. (0, ''foo()'' @ [CHR 0x0A] @ ''bar()'' @ [CHR 0x0A]))
       example_mangled
     = (Inr [raw_symbol ''foo()'' 100 4 ''t'' ''.text'' '''',
             raw_symbol ''main'' 104 4 ''t'' ''.text'' '''',
             raw_symbol ''bar()'' 108 4 ''t'' ''.text'' ''''], 1) \<and>
   UnmangleRemainingSymbols (\<lambda>inp. (0, ''foo()'' @ [CHR 0x0A])) example_mangled
     = (Inr [raw_symbol ''foo()'' 100 4 ''t'' ''.text'' '''',
             raw_symbol ''main'' 104 4 ''t'' ''.text'' '''',
             raw_symbol ''_Z3barv'' 108 4 ''t'' ''.text'' ''''], 1)"
proof -
  have tp: "[0, 2] = filter (\<lambda>j. startswith (name (example_mangled ! j)) ''_Z'')
      [0..<length example_mangled]"
    by (simp add: example_mangled_def raw_symbol_def startswith_def)
  note failed = unmangle_contract[OF tp, where demangle = "\<lambda>inp. (1, '''')" and returncode = 1
      and stdout = "''''" and lines = "[]"]
  note more = unmangle_contract[OF tp,
      where demangle = "\<lambda>inp. (0, ''foo()'' @ [CHR 0x0A] @ ''bar()'' @ [CHR 0x0A] @ ''x'')"
      and returncode = 0 and stdout = "''foo()'' @ [CHR 0x0A] @ ''bar()'' @ [CHR 0x0A] @ ''x''"
      and lines = "[''foo()'', ''bar()'', ''x'']"]
  have 1: "UnmangleRemainingSymbols (\<lambda>inp. (1, '''')) example_mangled
     = (Inl (AssertionError ''proc.returncode == 0''), 1)"
    using failed by (simp add: splitlines_def)
  have 2: "UnmangleRemainingSymbols
       (\<lambda>inp. (0, ''foo()'' @ [CHR 0x0A] @ ''bar()'' @ [CHR 0x0A] @ ''x'')) example_mangled
     = (Inl (IndexError ''list index out of range''), 1)"
    using more by (simp add: splitlines_def)
  have 3: "UnmangleRemainingSymbols (\<lambda>inp. (0, ''foo()'' @ [CHR 0x0A] @ ''bar()'' @ [CHR 0x0A]))
       example_mangled
     = (Inr [raw_symbol ''foo()'' 100 4 ''t'' ''.text'' '''',
             raw_symbol ''main'' 104 4 ''t'' ''.text'' '''',
             raw_symbol ''bar()'' 108 4 ''t'' ''.text'' ''''], 1)"
    by (simp add: UnmangleRemainingSymbols_def example_mangled_def raw_symbol_def
        startswith_def splitlines_def)
  have 4: "UnmangleRemainingSymbols (\<lambda>inp. (0, ''foo()'' @ [CHR 0x0A])) example_mangled
     = (Inr [raw_symbol ''foo()'' 100 4 ''t'' ''.text'' '''',
             raw_symbol ''main'' 104 4 ''t'' ''.text'' '''',
             raw_symbol ''_Z3barv'' 108 4 ''t'' ''.text'' ''''], 1)"
    by (simp add: UnmangleRemainingSymbols_def example_mangled_def raw_symbol_def
        startswith_def splitlines_def)
  from 1 2 3 4 show ?thesis by blast
qed

text \<open>
  Two names are handed over, the demangler exits with zero and prints one line: the call
  completes, and the second symbol keeps its mangled name.
\<close>

theorem unmangle_fewer_lines_counterexample:
  "UnmangleRemainingSymbols (\<lambda>inp. (0, ''foo()''))
     [raw_symbol ''_Z3foov'' 100 4 ''t'' ''.text'' '''',
      raw_symbol ''_Z3barv'' 104 4 ''t'' ''.text'' '''']
   = (Inr [raw_symbol ''foo()'' 100 4 ''t'' ''.text'' '''',
           raw_symbol ''_Z3barv'' 104 4 ''t'' ''.text'' ''''], 1)"
  by (simp add: UnmangleRemainingSymbols_def raw_symbol_def startswith_def splitlines_def)

section \<open>Properties of the Name Normalizer\<close>

subsection \<open>Finding a substring\<close>

lemma find_sub_first:
  assumes "\<forall>j<k. \<not> occurs_at sub s j" "occurs_at sub s k" "k \<le> length s"
  shows "find_sub s sub = int k"
  using assms
proof (induction s arbitrary: k)
  case Nil
  then show ?case by (simp add: occurs_at_def startswith_def)
next
  case (Cons c cs)
  show ?case
  proof (cases k)
    case 0
    with Cons.prems(2) show ?thesis by (simp add: occurs_at_def)
  next
    case (Suc k')
    from Cons.prems(1) Suc have no0: "\<not> startswith (c # cs) sub"
      by (auto simp: occurs_at_def)
    have "\<forall>j<k'. \<not> occurs_at sub cs j"
    proof (intro allI impI)
      fix j assume "j < k'"
      then have "Suc j < k" using Suc by simp
      with Cons.prems(1) show "\<not> occurs_at sub cs j" by (auto simp: occurs_at_def)
    qed
    moreover have "occurs_at sub cs k'" using Cons.prems(2) Suc by (simp add: occurs_at_def)
    moreover have "k' \<le> length cs" using Cons.prems(3) Suc by simp
    ultimately have "find_sub cs sub = int k'" by (rule Cons.IH)
    with no0 Suc show ?thesis by simp
  qed
qed

lemma find_sub_none:
  assumes "\<forall>j \<le> length s. \<not> occurs_at sub s j"
  shows "find_sub s sub = -1"
  using assms
proof (induction s)
  case Nil
  then show ?case by (auto simp: occurs_at_def startswith_def)
next
  case (Cons c cs)
  from Cons.prems have no0: "\<not> startswith (c # cs) sub" by (auto simp: occurs_at_def)
  have "\<forall>j \<le> length cs. \<not> occurs_at sub cs j"
  proof (intro allI impI)
    fix j assume "j \<le> length cs"
    then have "Suc j \<le> length (c # cs)" by simp
    with Cons.prems show "\<not> occurs_at sub cs j" by (auto simp: occurs_at_def)
  qed
  then have "find_sub cs sub = -1" by (rule Cons.IH)
  with no0 show ?case by simp
qed

lemma occurs_at_take:
  assumes "occurs_at sub (take e s) j"
  shows "occurs_at sub s j" and "sub \<noteq> [] \<Longrightarrow> j + length sub \<le> e"
proof -
  from assms have eq: "take (length sub) (take (e - j) (drop j s)) = sub"
    by (simp add: occurs_at_def startswith_def drop_take)
  then have "length (take (length sub) (take (e - j) (drop j s))) = length sub" by simp
  then have le: "length sub \<le> e - j" "length sub \<le> length (drop j s)"
    by (simp_all add: min_def split: if_splits)
  from eq le(1) have "take (length sub) (drop j s) = sub" by (simp add: min_def)
  then show "occurs_at sub s j" by (simp add: occurs_at_def startswith_def)
  show "j + length sub \<le> e" if "sub \<noteq> []"
  proof -
    from that le(1) have "0 < e - j" by (cases sub) auto
    with le(1) show ?thesis by simp
  qed
qed

lemma find_upto_first:
  assumes n: "n = X @ sub @ Y" and fit: "length X + length sub \<le> e"
    and first: "\<forall>j<length X. \<not> occurs_at sub n j"
  shows "find_upto n sub e = int (length X)"
proof -
  have tk: "take e n = X @ sub @ take (e - length X - length sub) Y"
    using n fit by simp
  have "\<forall>j<length X. \<not> occurs_at sub (take e n) j"
    using first occurs_at_take(1) by blast
  moreover have "occurs_at sub (take e n) (length X)"
    unfolding tk by (simp add: occurs_at_def startswith_def)
  moreover have "length X \<le> length (take e n)" unfolding tk by simp
  ultimately show ?thesis unfolding find_upto_def by (rule find_sub_first)
qed

lemma find_upto_none:
  assumes "sub \<noteq> []" "\<forall>j. j + length sub \<le> e \<longrightarrow> \<not> occurs_at sub n j"
  shows "find_upto n sub e = -1"
  unfolding find_upto_def
proof (rule find_sub_none, intro allI impI)
  fix j assume "j \<le> length (take e n)"
  show "\<not> occurs_at sub (take e n) j"
  proof
    assume occ: "occurs_at sub (take e n) j"
    from occurs_at_take[OF occ] assms show False by blast
  qed
qed

lemma find_sub_ge: "-1 \<le> find_sub s sub"
  by (induction s) (auto simp: Let_def)

lemma find_sub_occurs:
  assumes "occurs_at sub s j" "j \<le> length s"
  shows "0 \<le> find_sub s sub"
  using assms
proof (induction s arbitrary: j)
  case Nil
  then show ?case by (simp add: occurs_at_def startswith_def)
next
  case (Cons c cs)
  show ?case
  proof (cases j)
    case 0
    with Cons.prems(1) show ?thesis by (simp add: occurs_at_def)
  next
    case (Suc j')
    with Cons.prems have "occurs_at sub cs j'" "j' \<le> length cs"
      by (simp_all add: occurs_at_def)
    then have "0 \<le> find_sub cs sub" by (rule Cons.IH)
    then show ?thesis by (simp add: Let_def)
  qed
qed

lemma find_upto_none_occurs:
  assumes none: "find_upto n sub e = -1" and fit: "j + length sub \<le> e" and sub: "sub \<noteq> []"
  shows "\<not> occurs_at sub n j"
proof
  assume occ: "occurs_at sub n j"
  then have tk: "take (length sub) (drop j n) = sub"
    by (simp add: occurs_at_def startswith_def)
  then have "length (take (length sub) (drop j n)) = length sub" by simp
  then have len: "j + length sub \<le> length n" using sub by (cases sub) auto
  have "take (length sub) (drop j (take e n)) = take (length sub) (drop j n)"
    using fit by (simp add: drop_take min_def)
  with tk have "occurs_at sub (take e n) j" by (simp add: occurs_at_def startswith_def)
  moreover have "j \<le> length (take e n)" using fit len by simp
  ultimately have "0 \<le> find_sub (take e n) sub" by (rule find_sub_occurs)
  with none show False by (simp add: find_upto_def)
qed

subsection \<open>The prefix rules\<close>

lemma rewrite_for_match:
  assumes "n = X @ '' for '' @ Y" "length X \<le> 25" "\<forall>j<length X. \<not> occurs_at '' for '' n j"
  shows "rewrite_for n = Y @ '' ['' @ X @ '']''"
proof -
  have "find_upto n '' for '' 30 = int (length X)"
    using assms by (intro find_upto_first[where Y = Y]) simp_all
  then show ?thesis using assms(1) by (simp add: rewrite_for_def Let_def nat_add_distrib)
qed

lemma rewrite_to_match:
  assumes "m = V @ '' to '' @ W" "length V \<le> 26" "\<forall>j<length V. \<not> occurs_at '' to '' m j"
  shows "rewrite_to m = W @ '' ['' @ V @ '']''"
proof -
  have "find_upto m '' to '' 30 = int (length V)"
    using assms by (intro find_upto_first[where Y = W]) simp_all
  then show ?thesis using assms(1) by (simp add: rewrite_to_def Let_def nat_add_distrib)
qed

lemma rewrite_for_no_match:
  assumes "\<forall>j \<le> 25. \<not> occurs_at '' for '' n j"
  shows "rewrite_for n = n"
proof -
  have "find_upto n '' for '' 30 = -1"
    using assms by (intro find_upto_none) auto
  then show ?thesis by (simp add: rewrite_for_def)
qed

lemma rewrite_to_no_match:
  assumes "\<forall>j \<le> 26. \<not> occurs_at '' to '' m j"
  shows "rewrite_to m = m"
proof -
  have "find_upto m '' to '' 30 = -1"
    using assms by (intro find_upto_none) auto
  then show ?thesis by (simp add: rewrite_to_def)
qed

lemma normalize_symbol_name:
  assumes "\<not> startswith (name s) ''*''"
  shows "name (normalize_symbol P s) =
     (let r = rewrite_to (rewrite_for (name s));
          a = str_remove (if section_sym s = ''t'' then snd (P r) else r)
                ''(anonymous namespace)::''
      in if section_sym s \<noteq> ''t'' \<and> CHR ''('' \<in> set a then re_sub_parens a else a)"
proof -
  define s2 where "s2 = move_prefixes s"
  define s3 where "s3 = parse_signature P s2"
  define s4 where "s4 = remove_anonymous s3"
  define s5 where "s5 = strip_parens s4"
  have n2: "name s2 = rewrite_to (rewrite_for (name s))" and sec2: "section_sym s2 = section_sym s"
    by (simp_all add: s2_def move_prefixes_def)
  have n3: "name s3 = (if section_sym s = ''t'' then snd (P (name s2)) else name s2)"
    and sec3: "section_sym s3 = section_sym s"
    by (simp_all add: s3_def parse_signature_def sec2)
  have n4: "name s4 = str_remove (name s3) ''(anonymous namespace)::''"
    and sec4: "section_sym s4 = section_sym s"
    by (simp_all add: s4_def remove_anonymous_def Let_def sec3)
  have n5: "name s5 = (if section_sym s \<noteq> ''t'' \<and> CHR ''('' \<in> set (name s4)
      then re_sub_parens (name s4) else name s4)"
    by (simp add: s5_def strip_parens_def sec4)
  have "name (normalize_symbol P s) = name s5"
    using assms by (simp add: normalize_symbol_def clear_full_name_def s5_def s4_def s3_def s2_def)
  then show ?thesis by (simp add: n5 n4 n3 n2 Let_def)
qed

lemmas normalize_eval =
  normalize_symbol_def move_prefixes_def parse_signature_def remove_anonymous_def
  strip_parens_def clear_full_name_def rewrite_for_def rewrite_to_def find_upto_def
  startswith_def raw_symbol_def Let_def

text \<open>
  Claim C7, as amended. When \<^verbatim>\<open>' for '\<close> occurs in a name and its first occurrence
  starts at an index of 25 or less, so that it ends within the first 30 characters, the
  first rule turns the name \<^verbatim>\<open>X for Y\<close> into \<^verbatim>\<open>Y [X]\<close>; when no occurrence starts
  at an index of 25 or less, the rule leaves the name as it is. The second rule does the
  same for \<^verbatim>\<open>' to '\<close>, with 26 in place of 25. A symbol whose name starts with
  \<^verbatim>\<open>*\<close> is not touched. For every other symbol the second rule is applied to the
  result of the first one, whether the first one has rewritten the name or not, and the
  later steps (the signature parser in code sections, the removal of anonymous namespaces
  and of a parameter list) work on that result.
\<close>

theorem prefix_rules_in_sequence:
  "(n = X @ '' for '' @ Y \<and> length X \<le> 25 \<and> (\<forall>j<length X. \<not> occurs_at '' for '' n j) \<longrightarrow>
      rewrite_for n = Y @ '' ['' @ X @ '']'') \<and>
   ((\<forall>j \<le> 25. \<not> occurs_at '' for '' n j) \<longrightarrow> rewrite_for n = n) \<and>
   (m = V @ '' to '' @ W \<and> length V \<le> 26 \<and> (\<forall>j<length V. \<not> occurs_at '' to '' m j) \<longrightarrow>
      rewrite_to m = W @ '' ['' @ V @ '']'') \<and>
   ((\<forall>j \<le> 26. \<not> occurs_at '' to '' m j) \<longrightarrow> rewrite_to m = m) \<and>
   (startswith (name s) ''*'' \<longrightarrow> normalize_symbol P s = s) \<and>
   (\<not> startswith (name s) ''*'' \<longrightarrow>
      name (normalize_symbol P s) =
        (let r = rewrite_to (rewrite_for (name s));
             a = str_remove (if section_sym s = ''t'' then snd (P r) else r)
                   ''(anonymous namespace)::''
         in if section_sym s \<noteq> ''t'' \<and> CHR ''('' \<in> set a then re_sub_parens a else a))"
proof (intro conjI impI)
  assume "n = X @ '' for '' @ Y \<and> length X \<le> 25 \<and> (\<forall>j<length X. \<not> occurs_at '' for '' n j)"
  then show "rewrite_for n = Y @ '' ['' @ X @ '']''" using rewrite_for_match by blast
next
  assume "\<forall>j \<le> 25. \<not> occurs_at '' for '' n j"
  then show "rewrite_for n = n" by (rule rewrite_for_no_match)
next
  assume "m = V @ '' to '' @ W \<and> length V \<le> 26 \<and> (\<forall>j<length V. \<not> occurs_at '' to '' m j)"
  then show "rewrite_to m = W @ '' ['' @ V @ '']''" using rewrite_to_match by blast
next
  assume "\<forall>j \<le> 26. \<not> occurs_at '' to '' m j"
  then show "rewrite_to m = m" by (rule rewrite_to_no_match)
next
  assume "startswith (name s) ''*''"
  then show "normalize_symbol P s = s" by (simp add: normalize_symbol_def)
next
  assume "\<not> startswith (name s) ''*''"
  then show "name (normalize_symbol P s) =
        (let r = rewrite_to (rewrite_for (name s));
             a = str_remove (if section_sym s = ''t'' then snd (P r) else r)
                   ''(anonymous namespace)::''
         in if section_sym s \<noteq> ''t'' \<and> CHR ''('' \<in> set a then re_sub_parens a else a)"
    by (rule normalize_symbol_name)
qed

text \<open>
  \<^verbatim>\<open>vtable for Foo\<close> and \<^verbatim>\<open>virtual thunk to Bar\<close>, a placeholder, and the final name
  of a data symbol.
\<close>

theorem prefix_rules_in_sequence_witness:
  "rewrite_for ''vtable for Foo'' = ''Foo [vtable]'' \<and>
   rewrite_to ''vtable for Foo'' = ''vtable for Foo'' \<and>
   rewrite_to ''virtual thunk to Bar'' = ''Bar [virtual thunk]'' \<and>
   rewrite_for ''virtual thunk to Bar'' = ''virtual thunk to Bar'' \<and>
   normalize_symbol (\<lambda>n. (n, n)) (raw_symbol ''* for x'' 4096 8 ''d'' ''.data'' '''')
     = raw_symbol ''* for x'' 4096 8 ''d'' ''.data'' '''' \<and>
   name (normalize_symbol (\<lambda>n. (n, n)) (raw_symbol ''vtable for Foo'' 4096 8 ''d'' ''.data'' ''''))
     = ''Foo [vtable]''"
proof -
  let ?P = "\<lambda>n::string. (n, n)"
  let ?star = "raw_symbol ''* for x'' 4096 8 ''d'' ''.data'' ''''"
  let ?vt = "raw_symbol ''vtable for Foo'' 4096 8 ''d'' ''.data'' ''''"
  note a = prefix_rules_in_sequence[where n = "''vtable for Foo''" and X = "''vtable''"
      and Y = "''Foo''" and m = "''virtual thunk to Bar''" and V = "''virtual thunk''"
      and W = "''Bar''" and s = ?star and P = ?P]
  note b = prefix_rules_in_sequence[where n = "''virtual thunk to Bar''"
      and m = "''vtable for Foo''" and s = ?vt and P = ?P]
  have first_for: "\<forall>j<length ''vtable''. \<not> occurs_at '' for '' ''vtable for Foo'' j"
    by (simp add: occurs_at_def startswith_def less_Suc_eq)
  have first_to: "\<forall>j<length ''virtual thunk''. \<not> occurs_at '' to '' ''virtual thunk to Bar'' j"
    by (simp add: occurs_at_def startswith_def less_Suc_eq)
  have "find_upto ''virtual thunk to Bar'' '' for '' 30 = -1"
    by (simp add: find_upto_def startswith_def)
  then have no_for: "\<forall>j \<le> 25. \<not> occurs_at '' for '' ''virtual thunk to Bar'' j"
    by (intro allI impI find_upto_none_occurs[where e = 30]) simp_all
  have "find_upto ''vtable for Foo'' '' to '' 30 = -1"
    by (simp add: find_upto_def startswith_def)
  then have no_to: "\<forall>j \<le> 26. \<not> occurs_at '' to '' ''vtable for Foo'' j"
    by (intro allI impI find_upto_none_occurs[where e = 30]) simp_all
  have r1: "rewrite_for ''vtable for Foo'' = ''Foo [vtable]''" using a first_for by simp
  have r2: "rewrite_to ''virtual thunk to Bar'' = ''Bar [virtual thunk]''"
    using a first_to by simp
  have r3: "rewrite_for ''virtual thunk to Bar'' = ''virtual thunk to Bar''"
    using b no_for by blast
  have r4: "rewrite_to ''vtable for Foo'' = ''vtable for Foo''" using b no_to by blast
  have r5: "normalize_symbol ?P ?star = ?star"
    using a by (simp add: raw_symbol_def startswith_def)
  have "\<not> startswith (name ?vt) ''*''" by (simp add: raw_symbol_def startswith_def)
  with b have "name (normalize_symbol ?P ?vt) =
        (let r = rewrite_to (rewrite_for (name ?vt));
             a = str_remove (if section_sym ?vt = ''t'' then snd (?P r) else r)
                   ''(anonymous namespace)::''
         in if section_sym ?vt \<noteq> ''t'' \<and> CHR ''('' \<in> set a then re_sub_parens a else a)"
    by blast
  then have r6: "name (normalize_symbol ?P ?vt) = ''Foo [vtable]''"
    by (simp add: raw_symbol_def r1 rewrite_to_def find_upto_def startswith_def)
  from r1 r2 r3 r4 r5 r6 show ?thesis by blast
qed

text \<open>
  A name with both patterns is rewritten twice; a pattern that starts at index 26 is not
  found, although it starts within the first 30 characters; a placeholder keeps its name.
\<close>

theorem prefix_rules_counterexample:
  "rewrite_for ''a for b to c'' = ''b to c [a]'' \<and>
   name (normalize_symbol (\<lambda>n. (n, n)) (raw_symbol ''a for b to c'' 4096 8 ''d'' ''.data'' ''''))
     = ''c [a] [b]'' \<and>
   name (normalize_symbol (\<lambda>n. (n, n))
          (raw_symbol ''01234567890123456789012345 for x'' 4096 8 ''d'' ''.data'' ''''))
     = ''01234567890123456789012345 for x'' \<and>
   name (normalize_symbol (\<lambda>n. (n, n)) (raw_symbol ''* for x'' 4096 8 ''d'' ''.data'' ''''))
     = ''* for x''"
  by (simp add: normalize_eval)

subsection \<open>A second pass\<close>

lemma str_remove_absent:
  "\<not> str_in tok n \<Longrightarrow> str_remove n tok = n"
proof (induction n)
  case Nil
  then show ?case by simp
next
  case (Cons c cs)
  from Cons.prems have none: "find_sub (c # cs) tok = -1" by (simp add: str_in_def)
  then have no0: "\<not> startswith (c # cs) tok" by (auto split: if_splits)
  from none no0 find_sub_ge[of cs tok] have "find_sub cs tok = -1"
    by (auto simp: Let_def split: if_splits)
  then have "str_remove cs tok = cs" using Cons.IH by (simp add: str_in_def)
  with no0 show ?case by simp
qed

lemma normalize_symbol_full_name:
  "\<not> startswith (name s) ''*'' \<Longrightarrow> full_name (normalize_symbol P s) = name (normalize_symbol P s)
     \<Longrightarrow> full_name (normalize_symbol P s) = []"
  by (simp add: normalize_symbol_def clear_full_name_def split: if_splits)

lemma normalize_symbol_section: "section_sym (normalize_symbol P s) = section_sym s"
  by (simp add: normalize_symbol_def clear_full_name_def strip_parens_def remove_anonymous_def
      parse_signature_def move_prefixes_def Let_def)

lemma normalize_symbol_stable:
  assumes out: "s' = normalize_symbol P s"
    and settled: "startswith (name s') ''*'' \<or>
       (section_sym s' \<noteq> ''t'' \<and>
        \<not> str_in '' for '' (take 30 (name s')) \<and>
        \<not> str_in '' to '' (take 30 (name s')) \<and>
        \<not> str_in ''(anonymous namespace)::'' (name s') \<and>
        CHR ''('' \<notin> set (name s'))"
  shows "normalize_symbol P s' = s'"
proof (cases "startswith (name s') ''*''")
  case True
  then show ?thesis by (simp add: normalize_symbol_def)
next
  case False
  with settled have sec: "section_sym s' \<noteq> ''t''"
    and no_for: "find_upto (name s') '' for '' 30 = -1"
    and no_to: "find_upto (name s') '' to '' 30 = -1"
    and no_anon: "\<not> str_in ''(anonymous namespace)::'' (name s')"
    and no_paren: "CHR ''('' \<notin> set (name s')"
    by (auto simp: str_in_def find_upto_def)
  have unstarred: "\<not> startswith (name s) ''*''"
  proof
    assume "startswith (name s) ''*''"
    then have "s' = s" using out by (simp add: normalize_symbol_def)
    with False \<open>startswith (name s) ''*''\<close> show False by simp
  qed
  have full: "full_name s' = name s' \<Longrightarrow> full_name s' = []"
    using normalize_symbol_full_name[OF unstarred] out by simp
  have 1: "move_prefixes s' = s'"
    using no_for no_to by (simp add: move_prefixes_def rewrite_for_def rewrite_to_def)
  have 2: "parse_signature P s' = s'" using sec by (simp add: parse_signature_def)
  have 3: "remove_anonymous s' = s'"
    using str_remove_absent[OF no_anon] by (simp add: remove_anonymous_def)
  have 4: "strip_parens s' = s'" using no_paren by (simp add: strip_parens_def)
  have 5: "clear_full_name s' = s'"
  proof (cases "full_name s' = name s'")
    case True
    then have "full_name s' = []" by (rule full)
    then have "s'\<lparr>full_name := []\<rparr> = s'" by simp
    with True show ?thesis by (simp add: clear_full_name_def)
  next
    case False
    then show ?thesis by (simp add: clear_full_name_def)
  qed
  show ?thesis using False by (simp add: normalize_symbol_def 1 2 3 4 5)
qed

text \<open>
  Claim C6, as amended. A second pass of the name normalizer changes nothing when every
  symbol that the first pass yields is a placeholder (its name starts with \<^verbatim>\<open>*\<close>) or
  is outside the code sections and has a name with no \<^verbatim>\<open>' for '\<close> and no
  \<^verbatim>\<open>' to '\<close> in its first 30 characters, no anonymous-namespace marker and no opening
  parenthesis.
\<close>

theorem normalize_twice_settled:
  assumes "\<forall>s \<in> set (NormalizeNames P symbol_group).
       startswith (name s) ''*'' \<or>
       (section_sym s \<noteq> ''t'' \<and>
        \<not> str_in '' for '' (take 30 (name s)) \<and>
        \<not> str_in '' to '' (take 30 (name s)) \<and>
        \<not> str_in ''(anonymous namespace)::'' (name s) \<and>
        CHR ''('' \<notin> set (name s))"
  shows "NormalizeNames P (NormalizeNames P symbol_group) = NormalizeNames P symbol_group"
proof -
  have "normalize_symbol P (normalize_symbol P s) = normalize_symbol P s"
    if "s \<in> set symbol_group" for s
  proof (rule normalize_symbol_stable[OF refl])
    from that have "normalize_symbol P s \<in> set (NormalizeNames P symbol_group)"
      by (simp add: NormalizeNames_def)
    with assms show "startswith (name (normalize_symbol P s)) ''*'' \<or>
       (section_sym (normalize_symbol P s) \<noteq> ''t'' \<and>
        \<not> str_in '' for '' (take 30 (name (normalize_symbol P s))) \<and>
        \<not> str_in '' to '' (take 30 (name (normalize_symbol P s))) \<and>
        \<not> str_in ''(anonymous namespace)::'' (name (normalize_symbol P s)) \<and>
        CHR ''('' \<notin> set (name (normalize_symbol P s)))"
      by blast
  qed
  then show ?thesis by (simp add: NormalizeNames_def)
qed

lemmas names_eval = normalize_eval NormalizeNames_def re_sub_parens_def sub_parens_line_def
  str_in_def

lemma example_names_run:
  "NormalizeNames (\<lambda>n. (n, n)) example_names = example_names_normalized"
  by (simp add: example_names_def example_names_normalized_def names_eval)

text \<open>The example group: a second pass leaves the result of the first one as it is.\<close>

theorem normalize_twice_settled_witness:
  "NormalizeNames (\<lambda>n. (n, n)) example_names = example_names_normalized \<and>
   NormalizeNames (\<lambda>n. (n, n)) example_names_normalized = example_names_normalized"
proof -
  have "\<forall>s \<in> set (NormalizeNames (\<lambda>n. (n, n)) example_names).
       startswith (name s) ''*'' \<or>
       (section_sym s \<noteq> ''t'' \<and>
        \<not> str_in '' for '' (take 30 (name s)) \<and>
        \<not> str_in '' to '' (take 30 (name s)) \<and>
        \<not> str_in ''(anonymous namespace)::'' (name s) \<and>
        CHR ''('' \<notin> set (name s))"
    unfolding example_names_run
    by (simp add: example_names_normalized_def raw_symbol_def str_in_def startswith_def)
  from normalize_twice_settled[OF this] show ?thesis
    by (simp add: example_names_run)
qed

text \<open>
  The name \<^verbatim>\<open>a for b for c\<close> becomes \<^verbatim>\<open>b for c [a]\<close> in the first pass and
  \<^verbatim>\<open>c [a] [b]\<close> in the second.
\<close>

theorem normalize_twice_counterexample:
  "NormalizeNames (\<lambda>n. (n, n)) [raw_symbol ''a for b for c'' 4096 8 ''d'' ''.data'' '''']
     = [raw_symbol ''b for c [a]'' 4096 8 ''d'' ''.data'' ''''] \<and>
   NormalizeNames (\<lambda>n. (n, n))
      (NormalizeNames (\<lambda>n. (n, n)) [raw_symbol ''a for b for c'' 4096 8 ''d'' ''.data'' ''''])
     = [raw_symbol ''c [a] [b]'' 4096 8 ''d'' ''.data'' '''']"
  by (simp add: names_eval)

end
